theory Spec2Isabelle
  imports Main
begin

section \<open>JavaScript values\<close>

text \<open>
  The adapter is TypeScript over untyped request data, so the values that flow through
  it are modelled by a small universe of JavaScript values. Numbers are integers here
  (only their truthiness and their use as a status code are ever inspected). An object
  is the list of its own properties. \<open>JNative\<close> stands for a built-in member that a
  plain object inherits from \<open>Object.prototype\<close>, by its name: a function such as
  \<open>constructor\<close> or \<open>toString\<close>, or the prototype itself for \<open>__proto__\<close>.
\<close>

datatype jsval =
    JUndefined
  | JNull
  | JBool bool
  | JNum int
  | JStr string
  | JArr "jsval list"
  | JObj "(string \<times> jsval) list"
  | JNative string

text \<open>Truthiness, as the conditions \<open>if (x)\<close> and \<open>x || y\<close> test it.\<close>

fun truthy :: "jsval \<Rightarrow> bool" where
  "truthy JUndefined = False"
| "truthy JNull = False"
| "truthy (JBool b) = b"
| "truthy (JNum n) = (n \<noteq> 0)"
| "truthy (JStr s) = (s \<noteq> [])"
| "truthy (JArr xs) = True"
| "truthy (JObj fs) = True"
| "truthy (JNative n) = True"

text \<open>A thrown \<open>TypeError\<close>, as an object with its name and message.\<close>

definition TypeError :: "string \<Rightarrow> jsval" where
  "TypeError msg = JObj [(''name'', JStr ''TypeError''), (''message'', JStr msg)]"

text \<open>The names every plain object inherits from \<open>Object.prototype\<close>.\<close>

definition object_prototype_names :: "string list" where
  "object_prototype_names =
     [''constructor'', ''hasOwnProperty'', ''isPrototypeOf'', ''propertyIsEnumerable'',
      ''toLocaleString'', ''toString'', ''valueOf'', ''__proto__'', ''__defineGetter__'',
      ''__defineSetter__'', ''__lookupGetter__'', ''__lookupSetter__'']"

text \<open>
  Reading \<open>obj[key]\<close> on a plain object whose own properties are known: an own
  property wins, then a member inherited from \<open>Object.prototype\<close> is found, and any
  other key reads as \<open>undefined\<close>.
\<close>

definition js_get :: "(string \<times> jsval) list \<Rightarrow> string \<Rightarrow> jsval" where
  "js_get fs k =
     (case map_of fs k of
        Some v \<Rightarrow> v
      | None \<Rightarrow> if k \<in> set object_prototype_names then JNative k else JUndefined)"

text \<open>
  Reading a property of an arbitrary value: \<open>undefined\<close> and \<open>null\<close> have no
  properties and the read throws; a primitive, an array or a built-in has none of the
  names read in this file (\<open>message\<close>), so the read gives \<open>undefined\<close>.
\<close>

fun get_prop :: "jsval \<Rightarrow> string \<Rightarrow> jsval + jsval" where
  "get_prop JUndefined k =
     Inl (TypeError (''Cannot read properties of undefined (reading '' @ k @ '')''))"
| "get_prop JNull k =
     Inl (TypeError (''Cannot read properties of null (reading '' @ k @ '')''))"
| "get_prop (JObj fs) k = Inr (js_get fs k)"
| "get_prop v k = Inr JUndefined"

text \<open>
  \<open>String.prototype.toLowerCase\<close> on the ASCII letters (a \<open>string\<close> is a list of
  bytes; HTTP method names and header names are ASCII).
\<close>

definition lower_char :: "char \<Rightarrow> char" where
  "lower_char c =
     (case map_of (zip ''ABCDEFGHIJKLMNOPQRSTUVWXYZ'' ''abcdefghijklmnopqrstuvwxyz'') c of
        None \<Rightarrow> c
      | Some l \<Rightarrow> l)"

definition toLowerCase :: "string \<Rightarrow> string" where
  "toLowerCase s = map lower_char s"

text \<open>\<open>s.split(':')\<close>: the segments between the separators; never an empty array.\<close>

fun split_on :: "char \<Rightarrow> string \<Rightarrow> string list" where
  "split_on d [] = [[]]"
| "split_on d (c # cs) =
     (if c = d then [] # split_on d cs
      else (case split_on d cs of
              [] \<Rightarrow> [[c]]
            | w # ws \<Rightarrow> (c # w) # ws))"

text \<open>
  The array write \<open>args[i] = v\<close>: inside the array it replaces the element, beyond
  its end JavaScript extends the array, and the skipped positions read as
  \<open>undefined\<close> (also when the array is spread into a call).
\<close>

definition js_set :: "'a \<Rightarrow> 'a list \<Rightarrow> nat \<Rightarrow> 'a \<Rightarrow> 'a list" where
  "js_set hole xs i v =
     (if i < length xs then xs[i := v]
      else xs @ replicate (i - length xs) hole @ [v])"

section \<open>Parameter resolution: \<open>buildRouteArgs\<close>\<close>

text \<open>
  The part of an Express request that the adapter reads. \<open>params\<close>, \<open>query\<close> and
  \<open>headers\<close> are always objects in Express; the other fields may be anything,
  \<open>undefined\<close> included.
\<close>

record request =
  requestId :: string
  req_method :: string
  route_path :: string
  body :: jsval
  params :: "(string \<times> jsval) list"
  query :: "(string \<times> jsval) list"
  headers :: "(string \<times> jsval) list"
  session :: jsval
  user :: jsval
  ip :: jsval
  hosts :: jsval

text \<open>
  A handler argument is a JavaScript value, or one of the three objects of the call
  itself (\<open>req\<close>, \<open>res\<close>, \<open>next\<close>), which are passed on as they are.
\<close>

datatype arg = Val jsval | TheRequest | TheResponse | TheNext

text \<open>A parameter descriptor: \<open>{ index, paramType }\<close>, \<open>paramType\<close> being \<open>kind:name\<close>.\<close>

record param =
  index :: nat
  paramType :: string

text \<open>
  \<open>const [paramType, paramName] = param.paramType.split(':')\<close>: the first segment
  always exists, the second is \<open>undefined\<close> (\<open>None\<close>) when there is no colon.
\<close>

definition param_kind :: "param \<Rightarrow> string" where
  "param_kind p = hd (split_on CHR '':'' (paramType p))"

definition param_name :: "param \<Rightarrow> string option" where
  "param_name p =
     (case tl (split_on CHR '':'' (paramType p)) of [] \<Rightarrow> None | n # _ \<Rightarrow> Some n)"

text \<open>The property key that \<open>obj[paramName]\<close> uses: \<open>undefined\<close> becomes its name.\<close>

definition prop_key :: "string option \<Rightarrow> string" where
  "prop_key n = (case n of None \<Rightarrow> ''undefined'' | Some k \<Rightarrow> k)"

definition known_kinds :: "string list" where
  "known_kinds =
     [''body'', ''param'', ''query'', ''queries'', ''header'', ''headers'', ''request'',
      ''response'', ''next'', ''session'', ''user'', ''ip'', ''hosts'']"

text \<open>
  The value the \<open>switch\<close> selects for one descriptor. The only branch that can throw
  is \<open>header\<close>, which calls \<open>paramName.toLowerCase()\<close> on a name that may be
  \<open>undefined\<close>.
\<close>

definition resolve_value :: "request \<Rightarrow> param \<Rightarrow> jsval + arg" where
  "resolve_value req p =
     (let paramType = param_kind p; paramName = param_name p in
      if paramType = ''body'' then Inr (Val (body req))
      else if paramType = ''param'' then Inr (Val (js_get (params req) (prop_key paramName)))
      else if paramType = ''query'' then Inr (Val (js_get (query req) (prop_key paramName)))
      else if paramType = ''queries'' then Inr (Val (JObj (query req)))
      else if paramType = ''header'' then
        (case paramName of
           None \<Rightarrow>
             Inl (TypeError ''Cannot read properties of undefined (reading toLowerCase)'')
         | Some n \<Rightarrow> Inr (Val (js_get (headers req) (toLowerCase n))))
      else if paramType = ''headers'' then Inr (Val (JObj (headers req)))
      else if paramType = ''request'' then Inr TheRequest
      else if paramType = ''response'' then Inr TheResponse
      else if paramType = ''next'' then Inr TheNext
      else if paramType = ''session'' then Inr (Val (session req))
      else if paramType = ''user'' then Inr (Val (user req))
      else if paramType = ''ip'' then Inr (Val (ip req))
      else if paramType = ''hosts'' then Inr (Val (hosts req))
      else Inr (Val JUndefined))"

text \<open>One round of the \<open>forEach\<close>: resolve the value and write it at \<open>param.index\<close>.\<close>

definition resolve_param :: "request \<Rightarrow> arg list \<Rightarrow> param \<Rightarrow> jsval + arg list" where
  "resolve_param req args p =
     (case resolve_value req p of
        Inl e \<Rightarrow> Inl e
      | Inr v \<Rightarrow> Inr (js_set (Val JUndefined) args (index p) v))"

fun resolve_params :: "request \<Rightarrow> arg list \<Rightarrow> param list \<Rightarrow> jsval + arg list" where
  "resolve_params req args [] = Inr args"
| "resolve_params req args (p # ps) =
     (case resolve_param req args p of
        Inl e \<Rightarrow> Inl e
      | Inr args' \<Rightarrow> resolve_params req args' ps)"

text \<open>
  \<open>buildRouteArgs(req, res, next, params)\<close>: \<open>params?.forEach\<close> does nothing for a
  missing list (\<open>None\<close>), and the array starts empty.
\<close>

definition buildRouteArgs :: "request \<Rightarrow> param list option \<Rightarrow> jsval + arg list" where
  "buildRouteArgs req ps =
     (case ps of None \<Rightarrow> Inr [] | Some l \<Rightarrow> resolve_params req [] l)"

section \<open>Controller binding: \<open>registerControllers\<close>\<close>

text \<open>
  The route path is the template
  \<open>`/${prefix}${route.path ? '/' + route.path : ''}`\<close>; an empty sub-path is the
  falsy case.
\<close>

definition fullPath :: "string \<Rightarrow> string \<Rightarrow> string" where
  "fullPath pfx sub = ''/'' @ pfx @ (if sub \<noteq> [] then ''/'' @ sub else [])"

text \<open>What the specification asks of a registered path, as two executable tests.\<close>

fun has_dup_sep :: "string \<Rightarrow> bool" where
  "has_dup_sep (a # b # cs) = ((a = CHR ''/'' \<and> b = CHR ''/'') \<or> has_dup_sep (b # cs))"
| "has_dup_sep cs = False"

fun one_leading_slash :: "string \<Rightarrow> bool" where
  "one_leading_slash [] = False"
| "one_leading_slash [a] = (a = CHR ''/'')"
| "one_leading_slash (a # b # cs) = (a = CHR ''/'' \<and> b \<noteq> CHR ''/'')"

definition normalized_path :: "string \<Rightarrow> bool" where
  "normalized_path s = (one_leading_slash s \<and> \<not> has_dup_sep s)"

text \<open>
  A property of the server object, \<open>this.instance[name]\<close>: missing, a function, or
  some other value.
\<close>

datatype member = Absent | Callable | Other jsval

fun member_truthy :: "member \<Rightarrow> bool" where
  "member_truthy Absent = False"
| "member_truthy Callable = True"
| "member_truthy (Other v) = truthy v"

text \<open>
  Route and controller metadata, as the controller registry delivers it.
  \<open>middlewares\<close> may be missing (\<open>None\<close>); an array, even an empty one, is truthy.
\<close>

record 'mw route =
  rpath :: string
  rmethod :: string
  handlerName :: string
  rparams :: "param list option"
  middlewares :: "'mw list option"

text \<open>
  A controller: the names of its constructor's parameter types (the
  \<open>design:paramtypes\<close> metadata, empty when there is none), its constructor, which
  may throw, and its prefix and routes.
\<close>

record ('p, 'c, 'mw) controller =
  paramTypes :: "string list"
  construct :: "'p option list \<Rightarrow> jsval + 'c"
  prefix :: string
  routes :: "'mw route list"

text \<open>
  One call \<open>this.instance[method](fullPath, f)\<close> that the server object has received
  (for a registration method, the route that its table records): \<open>f\<close> is the
  dispatch function of the route on the controller instance, wrapped in the middleware
  runner when the route declares middlewares.
\<close>

record ('c, 'mw) entry =
  e_method :: string
  e_path :: string
  e_instance :: 'c
  e_route :: "'mw route"
  e_wrapped :: bool

text \<open>
  One round of \<open>routes.forEach\<close>. The guard \<open>if (this.instance[method])\<close> skips a
  route whose method names no member of the server object, or a falsy one; a truthy
  member is called, and calling one that is no function throws.
\<close>

definition register_route ::
  "(string \<Rightarrow> member) \<Rightarrow> 'c \<Rightarrow> string \<Rightarrow> ('c, 'mw) entry list \<Rightarrow> 'mw route
     \<Rightarrow> jsval + ('c, 'mw) entry list" where
  "register_route srv inst pfx tbl r =
     (let path = fullPath pfx (rpath r); method = toLowerCase (rmethod r) in
      if member_truthy (srv method) then
        (case srv method of
           Callable \<Rightarrow>
             Inr (tbl @ [\<lparr>e_method = method, e_path = path, e_instance = inst,
                          e_route = r, e_wrapped = (middlewares r \<noteq> None)\<rparr>])
         | _ \<Rightarrow> Inl (TypeError ''this.instance[method] is not a function''))
      else Inr tbl)"

fun register_routes ::
  "(string \<Rightarrow> member) \<Rightarrow> 'c \<Rightarrow> string \<Rightarrow> ('c, 'mw) entry list \<Rightarrow> 'mw route list
     \<Rightarrow> jsval + ('c, 'mw) entry list" where
  "register_routes srv inst pfx tbl [] = Inr tbl"
| "register_routes srv inst pfx tbl (r # rs) =
     (case register_route srv inst pfx tbl r of
        Inl e \<Rightarrow> Inl e
      | Inr tbl' \<Rightarrow> register_routes srv inst pfx tbl' rs)"

text \<open>
  One round of \<open>controllers.forEach\<close>: \<open>providersMap.get(paramType.name)\<close> for every
  parameter type (\<open>Map.get\<close> gives \<open>undefined\<close>, here \<open>None\<close>, for a missing key),
  then \<open>new controllerClass(...instances)\<close>, then the routes.
\<close>

definition resolve_dependencies :: "(string \<rightharpoonup> 'p) \<Rightarrow> string list \<Rightarrow> 'p option list" where
  "resolve_dependencies providersMap names = map providersMap names"

definition bind_controller ::
  "(string \<Rightarrow> member) \<Rightarrow> (string \<rightharpoonup> 'p) \<Rightarrow> ('c, 'mw) entry list \<Rightarrow> ('p, 'c, 'mw) controller
     \<Rightarrow> jsval + ('c, 'mw) entry list" where
  "bind_controller srv providersMap tbl c =
     (let instances = resolve_dependencies providersMap (paramTypes c) in
      case construct c instances of
        Inl e \<Rightarrow> Inl e
      | Inr inst \<Rightarrow> register_routes srv inst (prefix c) tbl (routes c))"

fun registerControllers ::
  "(string \<Rightarrow> member) \<Rightarrow> (string \<rightharpoonup> 'p) \<Rightarrow> ('c, 'mw) entry list
     \<Rightarrow> ('p, 'c, 'mw) controller list \<Rightarrow> jsval + ('c, 'mw) entry list" where
  "registerControllers srv providersMap tbl [] = Inr tbl"
| "registerControllers srv providersMap tbl (c # cs) =
     (case bind_controller srv providersMap tbl c of
        Inl e \<Rightarrow> Inl e
      | Inr tbl' \<Rightarrow> registerControllers srv providersMap tbl' cs)"

section \<open>Shutdown: \<open>close\<close>\<close>

text \<open>
  The adapter's state for shutdown: the set of open sockets (in insertion order, which
  is the order a \<open>Set\<close> is iterated in), the HTTP server if \<open>initHttpServer\<close> has
  made one, and the member \<open>this.instance.enabled\<close> that \<open>connected()\<close> returns.
  \<open>destroyed\<close> records the calls of \<open>socket.destroy()\<close>.
\<close>

record ('sock, 'srv) adapter =
  openConnections :: "'sock list"
  httpServer :: "'srv option"
  instance_enabled :: member
  destroyed :: "'sock list"

text \<open>
  \<open>closeOpenConnections\<close>: every socket of the set is destroyed and deleted.
  Deleting the current element while a \<open>Set\<close> is iterated skips nothing.
\<close>

definition destroy_socket :: "('sock, 'srv) adapter \<Rightarrow> 'sock \<Rightarrow> ('sock, 'srv) adapter" where
  "destroy_socket a s =
     a\<lparr>destroyed := destroyed a @ [s], openConnections := removeAll s (openConnections a)\<rparr>"

definition closeOpenConnections :: "('sock, 'srv) adapter \<Rightarrow> ('sock, 'srv) adapter" where
  "closeOpenConnections a = foldl destroy_socket a (openConnections a)"

text \<open>
  What \<open>httpServer.close(cb)\<close> does is the server library's business and a parameter
  here: it either throws at once, or calls \<open>cb(err)\<close>, with a falsy \<open>err\<close> for
  success.
\<close>

datatype close_signal = CallbackErr jsval | SyncThrow jsval

datatype close_outcome = ReturnedUndefined | Resolved | Rejected jsval

definition close ::
  "('srv \<Rightarrow> close_signal \<times> 'srv) \<Rightarrow> ('sock, 'srv) adapter
     \<Rightarrow> close_outcome \<times> ('sock, 'srv) adapter" where
  "close server_close a0 =
     (let a = closeOpenConnections a0 in
      case httpServer a of
        None \<Rightarrow> (ReturnedUndefined, a)
      | Some h \<Rightarrow>
          if member_truthy (instance_enabled a) then
            (case server_close h of
               (SyncThrow e, h') \<Rightarrow> (Rejected e, a\<lparr>httpServer := Some h'\<rparr>)
             | (CallbackErr err, h') \<Rightarrow>
                 (if truthy err then Rejected err else Resolved, a\<lparr>httpServer := Some h'\<rparr>))
          else (Resolved, a))"

text \<open>
  Node's \<open>net.Server.close(cb)\<close>, which \<open>http.Server\<close> inherits: a listening server
  stops and \<open>cb\<close> gets no error; a server that is not listening passes the error
  \<open>ERR_SERVER_NOT_RUNNING\<close> to \<open>cb\<close>.
\<close>

datatype node_server = Listening | NotRunning

definition ERR_SERVER_NOT_RUNNING :: jsval where
  "ERR_SERVER_NOT_RUNNING =
     JObj [(''code'', JStr ''ERR_SERVER_NOT_RUNNING''), (''message'', JStr ''Server is not running.'')]"

fun node_close :: "node_server \<Rightarrow> close_signal \<times> node_server" where
  "node_close Listening = (CallbackErr JUndefined, NotRunning)"
| "node_close NotRunning = (CallbackErr ERR_SERVER_NOT_RUNNING, NotRunning)"

section \<open>Telemetry\<close>

text \<open>
  The telemetry recorder belongs to the framework core, outside this repository; the
  adapter uses its four operations. A span record has a label, a start time and, once
  closed, an end time; the store holds the spans of each request identifier in order.
\<close>

record span =
  label :: string
  startTime :: int
  endTime :: "int option"

type_synonym telemetry = "string \<Rightarrow> span list"

text \<open>
  Modelled from the spec: \<open>Telemetry.start(spanName, requestId)\<close> of the telemetry
  recorder, whose source is not in this repository; it opens a span for the request.
\<close>

definition Telemetry_start :: "string \<Rightarrow> string \<Rightarrow> int \<Rightarrow> telemetry \<Rightarrow> telemetry" where
  "Telemetry_start l rid now t =
     t(rid := t rid @ [\<lparr>label = l, startTime = now, endTime = None\<rparr>])"

fun end_span :: "string \<Rightarrow> int \<Rightarrow> span list \<Rightarrow> span list" where
  "end_span l now [] = []"
| "end_span l now (x # xs) =
     (if label x = l \<and> endTime x = None then x\<lparr>endTime := Some now\<rparr> # xs
      else x # end_span l now xs)"

text \<open>
  Modelled from the spec: \<open>Telemetry.end(spanName, requestId)\<close> of the telemetry
  recorder, whose source is not in this repository; it closes the open span of that name.
\<close>

definition Telemetry_end :: "string \<Rightarrow> string \<Rightarrow> int \<Rightarrow> telemetry \<Rightarrow> telemetry" where
  "Telemetry_end l rid now t = t(rid := end_span l now (t rid))"

text \<open>
  Modelled from the spec: \<open>Telemetry.getTelemetry(requestId)\<close> of the telemetry
  recorder, whose source is not in this repository; the ordered list of span records.
\<close>

definition getTelemetry :: "string \<Rightarrow> telemetry \<Rightarrow> span list" where
  "getTelemetry rid t = t rid"

text \<open>
  Modelled from the spec: \<open>Telemetry.clearTelemetry(requestId)\<close> of the telemetry
  recorder, whose source is not in this repository; it removes every entry of the request.
\<close>

definition clearTelemetry :: "string \<Rightarrow> telemetry \<Rightarrow> telemetry" where
  "clearTelemetry rid t = t(rid := [])"

section \<open>Request dispatch: the route handler\<close>

text \<open>
  What the callbacks of a dispatch (interceptors, the controller's handler, after-render
  hooks) can see and change: the telemetry store, the clock that \<open>Date.now()\<close> reads,
  and a state \<open>'w\<close> of their own. A callback returns a value or throws one.
\<close>

record 'w env =
  telem :: telemetry
  clock :: int
  world :: 'w

datatype outcome = Returned jsval | Thrown jsval

definition tel_start :: "string \<Rightarrow> string \<Rightarrow> 'w env \<Rightarrow> 'w env" where
  "tel_start l rid s = s\<lparr>telem := Telemetry_start l rid (clock s) (telem s)\<rparr>"

definition tel_end :: "string \<Rightarrow> string \<Rightarrow> 'w env \<Rightarrow> 'w env" where
  "tel_end l rid s = s\<lparr>telem := Telemetry_end l rid (clock s) (telem s)\<rparr>"

definition tel_clear :: "string \<Rightarrow> 'w env \<Rightarrow> 'w env" where
  "tel_clear rid s = s\<lparr>telem := clearTelemetry rid (telem s)\<rparr>"

text \<open>
  The second global middleware opens the span \<open>Request Process\<close> as its first
  statement, before any route is dispatched.
\<close>

definition begin_request :: "request \<Rightarrow> 'w env \<Rightarrow> 'w env" where
  "begin_request req s = tel_start ''Request Process'' (requestId req) s"

text \<open>
  The response object the dispatch function builds: \<open>status\<close>, \<open>processingTime\<close>,
  then \<open>data\<close> (success) or \<open>message\<close> (error), and the two debug fields when
  \<open>req.query.debug\<close> is truthy.
\<close>

record envelope =
  status :: int
  processingTime :: int
  data :: "jsval option"
  message :: "jsval option"
  dbg_requestId :: "string option"
  dbg_telemetry :: "span list option"

datatype content = EnvelopeContent envelope | RawContent jsval

text \<open>
  The dispatch function's own actions, in the order it performs them: the calls of the
  callbacks, the three calls by which it writes a response (\<open>res.json(response)\<close>,
  \<open>res.status(200).send(result)\<close>, \<open>res.status(500).json(response)\<close>) and the
  clearing of the telemetry. A write is recorded when the call has returned; the number
  in \<open>ResStatusSend\<close> and \<open>ResStatusJson\<close> is the argument of \<open>res.status\<close>,
  and which HTTP status the server library finally puts on a raw body is its own
  business (Express 4 answers a numeric body \<open>404\<close> with the status 404).
\<close>

datatype event =
    InterceptorReturned jsval
  | InterceptorThrew jsval
  | HandlerInvoked "arg list"
  | HandlerReturned jsval
  | HandlerThrew jsval
  | AfterRenderInvoked content
  | ResJson envelope
  | ResStatusSend int jsval
  | ResStatusJson int envelope
  | TelemetryCleared string

fun is_response :: "event \<Rightarrow> bool" where
  "is_response (ResJson r) = True"
| "is_response (ResStatusSend c v) = True"
| "is_response (ResStatusJson c r) = True"
| "is_response e = False"

definition responses :: "event list \<Rightarrow> event list" where
  "responses evs = filter is_response evs"

text \<open>The status field of the envelope a response carries; a raw body has none.\<close>

fun envelope_status :: "event \<Rightarrow> int option" where
  "envelope_status (ResJson r) = Some (status r)"
| "envelope_status (ResStatusJson c r) = Some (status r)"
| "envelope_status e = None"

text \<open>An event that records an interceptor letting the request pass.\<close>

fun passed_interceptor :: "event \<Rightarrow> bool" where
  "passed_interceptor (InterceptorReturned v) = (\<not> truthy v)"
| "passed_interceptor e = False"

text \<open>
  The application module's hooks and the adapter's \<open>isJson\<close> test (inherited from the
  framework's abstract adapter, so a parameter here). Hooks observe the request and the
  content; they act on the environment.

  \<open>res_write\<close> is what the server library does with one of the three write calls on
  the response of this request, in the environment at that moment: the call returns
  (\<open>None\<close>) or throws (\<open>Some e\<close>). The library is not part of this repository, so
  this too is a parameter; the environment is an argument because a write on a response
  that a callback has already answered throws.
\<close>

record 'w app =
  httpInterceptors :: "(string \<Rightarrow> request \<Rightarrow> 'w env \<Rightarrow> outcome \<times> 'w env) list"
  httpAfterRender :: "(string \<Rightarrow> request \<Rightarrow> content \<Rightarrow> 'w env \<Rightarrow> outcome \<times> 'w env) list"
  isJson :: "jsval \<Rightarrow> bool"
  res_write :: "event \<Rightarrow> 'w env \<Rightarrow> jsval option"

text \<open>The route identity: \<open>`${req.method}::${req.route.path}`.toLocaleLowerCase()\<close>.\<close>

definition route_identity :: "request \<Rightarrow> string" where
  "route_identity req = toLowerCase (req_method req @ ''::'' @ route_path req)"

definition debug_requested :: "request \<Rightarrow> bool" where
  "debug_requested req = truthy (js_get (query req) ''debug'')"

text \<open>
  The interceptor loop: each interceptor is awaited in turn; a truthy result is the
  \<open>return\<close> of line 323, a throw leaves the loop for the \<open>catch\<close> block.
\<close>

datatype chain_result = Continue | Break | Raised jsval

fun run_interceptors ::
  "(string \<Rightarrow> request \<Rightarrow> 'w env \<Rightarrow> outcome \<times> 'w env) list \<Rightarrow> string \<Rightarrow> request \<Rightarrow> 'w env
     \<Rightarrow> chain_result \<times> 'w env \<times> event list" where
  "run_interceptors [] ident req s = (Continue, s, [])"
| "run_interceptors (i # is) ident req s =
     (case i ident req s of
        (Thrown e, s') \<Rightarrow> (Raised e, s', [InterceptorThrew e])
      | (Returned breakProcess, s') \<Rightarrow>
          if truthy breakProcess then (Break, s', [InterceptorReturned breakProcess])
          else (case run_interceptors is ident req s' of
                  (r, s'', evs) \<Rightarrow> (r, s'', InterceptorReturned breakProcess # evs)))"

text \<open>The after-render loop: each hook is awaited in turn; a throw leaves the loop.\<close>

fun run_afterRender ::
  "(string \<Rightarrow> request \<Rightarrow> content \<Rightarrow> 'w env \<Rightarrow> outcome \<times> 'w env) list \<Rightarrow> string \<Rightarrow> request
     \<Rightarrow> content \<Rightarrow> 'w env \<Rightarrow> jsval option \<times> 'w env \<times> event list" where
  "run_afterRender [] ident req c s = (None, s, [])"
| "run_afterRender (h # hs) ident req c s =
     (case h ident req c s of
        (Thrown e, s') \<Rightarrow> (Some e, s', [AfterRenderInvoked c])
      | (Returned v, s') \<Rightarrow>
          (case run_afterRender hs ident req c s' of
             (r, s'', evs) \<Rightarrow> (r, s'', AfterRenderInvoked c # evs)))"

datatype try_result = Finished | EarlyReturn | Threw jsval

text \<open>
  Lines 343 to 406: the handler has returned \<open>result\<close>. Both spans are closed, the
  result is classified, the after-render hooks run on the content, and the response is
  written; a write that throws does so inside the \<open>try\<close> block. A result that is
  neither JSON nor truthy writes nothing.
\<close>

definition respond ::
  "'w app \<Rightarrow> request \<Rightarrow> int \<Rightarrow> jsval \<Rightarrow> 'w env \<Rightarrow> try_result \<times> 'w env \<times> event list" where
  "respond app req start result s0 =
     (let rid = requestId req;
          s1 = tel_end ''Controller Handler'' rid s0;
          elapsed = clock s1 - start;
          s2 = tel_end ''Request Process'' rid s1;
          telemetry = getTelemetry rid (telem s2)
      in
      if isJson app result then
        (let response =
               \<lparr>status = 200, processingTime = elapsed, data = Some result, message = None,
                dbg_requestId = (if debug_requested req then Some rid else None),
                dbg_telemetry = (if debug_requested req then Some telemetry else None)\<rparr>
         in
         case (if length (httpAfterRender app) > 0
               then run_afterRender (httpAfterRender app) (route_identity req) req
                      (EnvelopeContent response) s2
               else (None, s2, [])) of
           (Some e, s3, evs) \<Rightarrow> (Threw e, s3, evs)
         | (None, s3, evs) \<Rightarrow>
             (case res_write app (ResJson response) s3 of
                Some e \<Rightarrow> (Threw e, s3, evs)
              | None \<Rightarrow> (Finished, s3, evs @ [ResJson response])))
      else if truthy result then
        (case (if length (httpAfterRender app) > 0
               then run_afterRender (httpAfterRender app) (route_identity req) req
                      (RawContent result) s2
               else (None, s2, [])) of
           (Some e, s3, evs) \<Rightarrow> (Threw e, s3, evs)
         | (None, s3, evs) \<Rightarrow>
             (case res_write app (ResStatusSend 200 result) s3 of
                Some e \<Rightarrow> (Threw e, s3, evs)
              | None \<Rightarrow> (Finished, s3, evs @ [ResStatusSend 200 result])))
      else (Finished, s2, []))"

text \<open>
  The \<open>try\<close> block, lines 301 to 406. The controller instance maps a handler name to
  the method of that name, if it has one; calling a missing method throws. (The hash
  stored in \<open>req.contextId\<close> is never read again and is left out.)
\<close>

definition try_body ::
  "'w app \<Rightarrow> (string \<Rightarrow> (arg list \<Rightarrow> 'w env \<Rightarrow> outcome \<times> 'w env) option) \<Rightarrow> 'mw route
     \<Rightarrow> request \<Rightarrow> int \<Rightarrow> 'w env \<Rightarrow> try_result \<times> 'w env \<times> event list" where
  "try_body app inst route req start s0 =
     (case (if length (httpInterceptors app) > 0
            then run_interceptors (httpInterceptors app) (route_identity req) req s0
            else (Continue, s0, [])) of
        (Raised e, s1, evs) \<Rightarrow> (Threw e, s1, evs)
      | (Break, s1, evs) \<Rightarrow> (EarlyReturn, s1, evs)
      | (Continue, s1, evs) \<Rightarrow>
          (case buildRouteArgs req (rparams route) of
             Inl e \<Rightarrow> (Threw e, s1, evs)
           | Inr args \<Rightarrow>
               (let s2 = tel_start ''Controller Handler'' (requestId req) s1 in
                case inst (handlerName route) of
                  None \<Rightarrow> (Threw (TypeError ''instance[route.handlerName] is not a function''),
                            s2, evs)
                | Some h \<Rightarrow>
                    (case h args s2 of
                       (Thrown e, s3) \<Rightarrow> (Threw e, s3, evs @ [HandlerInvoked args, HandlerThrew e])
                     | (Returned result, s3) \<Rightarrow>
                         (case respond app req start result s3 of
                            (r, s4, evs') \<Rightarrow>
                              (r, s4, evs @ [HandlerInvoked args, HandlerReturned result] @ evs'))))))"

text \<open>
  The \<open>catch\<close> block, lines 408 to 427. Building the response reads
  \<open>error.message\<close>, which itself throws when the thrown value is \<open>null\<close> or
  \<open>undefined\<close>; that exception, like one thrown by the write of line 427, leaves
  the dispatch function. \<open>Inr response\<close> says that the envelope was written.
\<close>

definition catch_block ::
  "'w app \<Rightarrow> request \<Rightarrow> int \<Rightarrow> jsval \<Rightarrow> 'w env \<Rightarrow> (jsval + envelope) \<times> 'w env" where
  "catch_block app req start error s0 =
     (let rid = requestId req;
          elapsed = clock s0 - start;
          s1 = tel_end ''Request Process'' rid s0;
          telemetry = getTelemetry rid (telem s1)
      in
      case get_prop error ''message'' of
        Inl e \<Rightarrow> (Inl e, s1)
      | Inr m \<Rightarrow>
          (let response =
                 \<lparr>status = 500, processingTime = elapsed, data = None,
                  message = Some (if truthy m then m else JStr ''Internal Server Error''),
                  dbg_requestId = (if debug_requested req then Some rid else None),
                  dbg_telemetry = (if debug_requested req then Some telemetry else None)\<rparr>
           in
           case res_write app (ResStatusJson 500 response) s1 of
             Some e \<Rightarrow> (Inl e, s1)
           | None \<Rightarrow> (Inr response, s1)))"

text \<open>
  The dispatch function of a route, the closure \<open>handler\<close> of lines 293 to 431
  (not to be confused with the controller's method \<open>instance[route.handlerName]\<close>,
  which it calls). It ends in one of three ways:
  it reaches its last statement, it returns from inside the interceptor loop, or an
  exception escapes the \<open>catch\<close> block. The \<open>return\<close> of line 323 leaves the
  function at once: there is no \<open>finally\<close>, so line 430 is not reached.
\<close>

datatype handler_outcome = Completed | ShortCircuited | Escaped jsval

definition handler ::
  "'w app \<Rightarrow> (string \<Rightarrow> (arg list \<Rightarrow> 'w env \<Rightarrow> outcome \<times> 'w env) option) \<Rightarrow> 'mw route
     \<Rightarrow> request \<Rightarrow> 'w env \<Rightarrow> handler_outcome \<times> 'w env \<times> event list" where
  "handler app inst route req s0 =
     (let start = clock s0 in
      case try_body app inst route req start s0 of
        (EarlyReturn, s1, evs) \<Rightarrow> (ShortCircuited, s1, evs)
      | (Finished, s1, evs) \<Rightarrow>
          (Completed, tel_clear (requestId req) s1, evs @ [TelemetryCleared (requestId req)])
      | (Threw e, s1, evs) \<Rightarrow>
          (case catch_block app req start e s1 of
             (Inl e', s2) \<Rightarrow> (Escaped e', s2, evs)
           | (Inr response, s2) \<Rightarrow>
               (Completed, tel_clear (requestId req) s2,
                evs @ [ResStatusJson 500 response, TelemetryCleared (requestId req)])))"

section \<open>Concrete inputs\<close>

text \<open>The request \<open>GET /items/42?q=foo\<close> on the route \<open>/items/:id\<close>.\<close>

definition example_request :: request where
  "example_request =
     \<lparr>requestId = ''req-1'', req_method = ''GET'', route_path = ''/items/:id'',
      body = JUndefined, params = [(''id'', JStr ''42'')], query = [(''q'', JStr ''foo'')],
      headers = [], session = JUndefined, user = JUndefined, ip = JUndefined,
      hosts = JUndefined\<rparr>"

text \<open>A server object with the registration methods \<open>get\<close> and \<open>post\<close> only.\<close>

definition example_server :: "string \<Rightarrow> member" where
  "example_server name = (if name = ''get'' \<or> name = ''post'' then Callable else Absent)"

definition items_route :: "unit route" where
  "items_route =
     \<lparr>rpath = '':id'', rmethod = ''GET'', handlerName = ''getItem'',
      rparams = Some [\<lparr>index = 0, paramType = ''param:id''\<rparr>,
                      \<lparr>index = 1, paramType = ''query:q''\<rparr>],
      middlewares = None\<rparr>"

definition trace_route :: "unit route" where
  "trace_route =
     \<lparr>rpath = ''trace'', rmethod = ''TRACE'', handlerName = ''traceItem'',
      rparams = None, middlewares = None\<rparr>"

text \<open>
  A controller whose constructor takes one \<open>ItemService\<close> and keeps what it is given;
  the instance is the list of its constructor arguments.
\<close>

definition items_controller :: "(nat, nat option list, unit) controller" where
  "items_controller =
     \<lparr>paramTypes = [''ItemService''], construct = (\<lambda>deps. Inr deps),
      prefix = ''items'', routes = [items_route]\<rparr>"

text \<open>
  An adapter after \<open>init\<close> and \<open>listen\<close> on the default Express application, whose
  member \<open>enabled\<close> is a function, with two open sockets.
\<close>

definition running_adapter :: "(nat, node_server) adapter" where
  "running_adapter =
     \<lparr>openConnections = [1, 2], httpServer = Some Listening, instance_enabled = Callable,
      destroyed = []\<rparr>"

text \<open>
  The same request with \<open>?debug=1\<close>, and the environment in which it reaches the
  route: the middleware has opened \<open>Request Process\<close> at time 100.
\<close>

definition debug_request :: request where
  "debug_request = example_request\<lparr>query := [(''q'', JStr ''foo''), (''debug'', JStr ''1'')]\<rparr>"

definition started_env :: "nat env" where
  "started_env = begin_request example_request \<lparr>telem = (\<lambda>rid. []), clock = 100, world = 0\<rparr>"

text \<open>
  Express 4 on a response that nothing has answered yet. \<open>res.send\<close> takes a
  numeric body for the status code, and Node refuses a status code outside 100 to 999
  with a \<open>RangeError\<close> (whose message also names the code); every other write
  returns.
\<close>

definition RangeError :: "string \<Rightarrow> jsval" where
  "RangeError msg = JObj [(''name'', JStr ''RangeError''), (''message'', JStr msg)]"

fun express_write :: "event \<Rightarrow> 'w env \<Rightarrow> jsval option" where
  "express_write (ResStatusSend c (JNum n)) s =
     (if 100 \<le> n \<and> n \<le> 999 then None else Some (RangeError ''Invalid status code''))"
| "express_write ev s = None"

text \<open>An \<open>isJson\<close> that accepts objects and arrays.\<close>

fun is_structured :: "jsval \<Rightarrow> bool" where
  "is_structured (JObj fs) = True"
| "is_structured (JArr xs) = True"
| "is_structured v = False"

text \<open>
  Applications: one without hooks, and one with an interceptor that returns \<open>true\<close>
  and an after-render hook. The \<open>world\<close> counts the calls of the handler and of the
  after-render hook.
\<close>

definition plain_app :: "nat app" where
  "plain_app =
     \<lparr>httpInterceptors = [], httpAfterRender = [], isJson = is_structured,
      res_write = express_write\<rparr>"

definition blocking_app :: "nat app" where
  "blocking_app =
     \<lparr>httpInterceptors = [\<lambda>ident req s. (Returned (JBool True), s)],
      httpAfterRender = [\<lambda>ident req c s. (Returned JUndefined, s\<lparr>world := world s + 1\<rparr>)],
      isJson = is_structured, res_write = express_write\<rparr>"

text \<open>
  Controller instances with the one method \<open>getItem\<close>, which takes 5 ms: one counts
  the call and returns an object, one returns nothing, one throws \<open>Error("boom")\<close>.
\<close>

definition boom :: jsval where
  "boom = JObj [(''message'', JStr ''boom'')]"

definition counting_instance :: "string \<Rightarrow> (arg list \<Rightarrow> nat env \<Rightarrow> outcome \<times> nat env) option" where
  "counting_instance name =
     (if name = ''getItem''
      then Some (\<lambda>args s. (Returned (JObj [(''id'', JStr ''42'')]),
                            s\<lparr>clock := clock s + 5, world := world s + 1\<rparr>))
      else None)"

definition silent_instance :: "string \<Rightarrow> (arg list \<Rightarrow> nat env \<Rightarrow> outcome \<times> nat env) option" where
  "silent_instance name =
     (if name = ''getItem''
      then Some (\<lambda>args s. (Returned JUndefined, s\<lparr>clock := clock s + 5\<rparr>))
      else None)"

definition failing_instance :: "string \<Rightarrow> (arg list \<Rightarrow> nat env \<Rightarrow> outcome \<times> nat env) option" where
  "failing_instance name =
     (if name = ''getItem''
      then Some (\<lambda>args s. (Thrown boom, s\<lparr>clock := clock s + 5\<rparr>))
      else None)"

text \<open>
  Two more controller instances: one whose method throws \<open>null\<close> (as
  \<open>throw null\<close> or a promise rejected without a reason does), and one that returns
  the number it is given.
\<close>

definition null_throwing_instance ::
  "string \<Rightarrow> (arg list \<Rightarrow> nat env \<Rightarrow> outcome \<times> nat env) option" where
  "null_throwing_instance name =
     (if name = ''getItem''
      then Some (\<lambda>args s. (Thrown JNull, s\<lparr>clock := clock s + 5\<rparr>))
      else None)"

definition numeric_instance ::
  "int \<Rightarrow> string \<Rightarrow> (arg list \<Rightarrow> nat env \<Rightarrow> outcome \<times> nat env) option" where
  "numeric_instance n name =
     (if name = ''getItem''
      then Some (\<lambda>args s. (Returned (JNum n), s\<lparr>clock := clock s + 5\<rparr>))
      else None)"

text \<open>
  A server object that, like an Express application, also has the member \<open>settings\<close>,
  an object and no function; and a route whose method is spelled \<open>SETTINGS\<close>.
\<close>

definition settings_server :: "string \<Rightarrow> member" where
  "settings_server name =
     (if name = ''get'' \<or> name = ''post'' then Callable
      else if name = ''settings'' then Other (JObj [(''env'', JStr ''development'')])
      else Absent)"

definition settings_route :: "unit route" where
  "settings_route =
     \<lparr>rpath = ''settings'', rmethod = ''SETTINGS'', handlerName = ''getSettings'',
      rparams = None, middlewares = None\<rparr>"

section \<open>Facts about parameter resolution\<close>

lemma js_set_length: "length (js_set h xs i v) = max (length xs) (Suc i)"
  by (auto simp: js_set_def)

lemma js_set_nth_same: "js_set h xs i v ! i = v"
  by (auto simp: js_set_def nth_append)

lemma js_set_nth_other: "j \<noteq> i \<Longrightarrow> j < length xs \<Longrightarrow> js_set h xs i v ! j = xs ! j"
  by (auto simp: js_set_def nth_append)

lemma unknown_kind_value:
  "param_kind p \<notin> set known_kinds \<Longrightarrow> resolve_value req p = Inr (Val JUndefined)"
  by (simp add: resolve_value_def known_kinds_def Let_def)

text \<open>Later descriptors leave the positions they do not name as they are.\<close>

lemma resolve_params_keeps:
  "resolve_params req args ps = Inr res \<Longrightarrow> i \<notin> index ` set ps \<Longrightarrow> i < length args
     \<Longrightarrow> i < length res \<and> res ! i = args ! i"
proof (induction ps arbitrary: args)
  case Nil
  then show ?case by simp
next
  case (Cons q qs)
  from Cons.prems(1) obtain v where v: "resolve_value req q = Inr v"
    and rest: "resolve_params req (js_set (Val JUndefined) args (index q) v) qs = Inr res"
    by (auto simp: resolve_param_def split: sum.splits)
  from Cons.prems(2) have ne: "i \<noteq> index q" and notin: "i \<notin> index ` set qs" by auto
  have len: "i < length (js_set (Val JUndefined) args (index q) v)"
    using Cons.prems(3) by (simp add: js_set_length)
  from Cons.IH[OF rest notin len] js_set_nth_other[OF ne Cons.prems(3)]
  show ?case by simp
qed

lemma resolve_params_places:
  "resolve_params req args ps = Inr res \<Longrightarrow> distinct (map index ps) \<Longrightarrow> p \<in> set ps
     \<Longrightarrow> index p < length res \<and> resolve_value req p = Inr (res ! index p)"
proof (induction ps arbitrary: args)
  case Nil
  then show ?case by simp
next
  case (Cons q qs)
  from Cons.prems(1) obtain v where v: "resolve_value req q = Inr v"
    and rest: "resolve_params req (js_set (Val JUndefined) args (index q) v) qs = Inr res"
    by (auto simp: resolve_param_def split: sum.splits)
  from Cons.prems(2) have dq: "index q \<notin> index ` set qs" and dqs: "distinct (map index qs)"
    by auto
  show ?case
  proof (cases "p = q")
    case True
    have "index q < length (js_set (Val JUndefined) args (index q) v)"
      by (simp add: js_set_length)
    from resolve_params_keeps[OF rest dq this] v True show ?thesis
      by (simp add: js_set_nth_same)
  next
    case False
    with Cons.prems(3) have "p \<in> set qs" by simp
    from Cons.IH[OF rest dqs this] show ?thesis .
  qed
qed

lemmas resolve_eval =
  buildRouteArgs_def resolve_param_def resolve_value_def param_kind_def param_name_def
  prop_key_def js_get_def object_prototype_names_def js_set_def

text \<open>
  The loop over a list in two parts runs the first part, then the second on its result.
\<close>

lemma resolve_params_append:
  "resolve_params req args (xs @ ys) =
     (case resolve_params req args xs of
        Inl e \<Rightarrow> Inl e
      | Inr a \<Rightarrow> resolve_params req a ys)"
  by (induction xs arbitrary: args) (auto split: sum.splits)

text \<open>Whether the loop throws, and what, does not depend on the array it starts from.\<close>

lemma resolve_params_error_independent:
  "(resolve_params req a ps = Inl e) = (resolve_params req b ps = Inl e)"
proof (induction ps arbitrary: a b)
  case Nil
  then show ?case by simp
next
  case (Cons q qs)
  show ?case
  proof (cases "resolve_value req q")
    case (Inl e')
    then show ?thesis by (simp add: resolve_param_def)
  next
    case (Inr v)
    with Cons.IH[of "js_set (Val JUndefined) a (index q) v" "js_set (Val JUndefined) b (index q) v"]
    show ?thesis by (simp add: resolve_param_def)
  qed
qed

text \<open>
  Claim C5. Let \<open>p\<close> be a descriptor whose kind is none of the thirteen known kinds.
  Resolving \<open>p\<close> alone returns an array that holds \<open>undefined\<close> at \<open>p\<close>'s index
  (and at the skipped positions before it). Inside any list of descriptors, \<open>p\<close>
  raises nothing: \<open>buildRouteArgs\<close> throws with \<open>p\<close> in the list exactly when it
  throws without it, and the same value. And when \<open>buildRouteArgs\<close> returns, the
  array holds \<open>undefined\<close> at \<open>p\<close>'s index, unless a later descriptor of the same
  index has overwritten it.
\<close>

theorem unknown_kind_resolves_undefined:
  assumes "param_kind p \<notin> set known_kinds"
  shows "buildRouteArgs req (Some [p]) = Inr (replicate (index p) (Val JUndefined) @ [Val JUndefined])
    \<and> ((buildRouteArgs req (Some (ps1 @ p # ps2)) = Inl e)
          = (buildRouteArgs req (Some (ps1 @ ps2)) = Inl e))
    \<and> (buildRouteArgs req (Some (ps1 @ p # ps2)) = Inr args \<longrightarrow> index p \<notin> index ` set ps2
          \<longrightarrow> index p < length args \<and> args ! index p = Val JUndefined)
    \<and> resolve_param req xs p = Inr (js_set (Val JUndefined) xs (index p) (Val JUndefined))"
proof -
  have step: "\<And>a. resolve_param req a p = Inr (js_set (Val JUndefined) a (index p) (Val JUndefined))"
    using assms by (simp add: resolve_param_def unknown_kind_value)
  have single: "buildRouteArgs req (Some [p])
                  = Inr (replicate (index p) (Val JUndefined) @ [Val JUndefined])"
    by (simp add: buildRouteArgs_def step js_set_def)
  have same_error: "(buildRouteArgs req (Some (ps1 @ p # ps2)) = Inl e)
                      = (buildRouteArgs req (Some (ps1 @ ps2)) = Inl e)"
  proof (cases "resolve_params req [] ps1")
    case (Inl e')
    then show ?thesis by (simp add: buildRouteArgs_def resolve_params_append)
  next
    case (Inr a)
    with resolve_params_error_independent
           [of req "js_set (Val JUndefined) a (index p) (Val JUndefined)" ps2 e a]
    show ?thesis by (simp add: buildRouteArgs_def resolve_params_append step)
  qed
  have placed: "index p < length args \<and> args ! index p = Val JUndefined"
    if ok: "buildRouteArgs req (Some (ps1 @ p # ps2)) = Inr args"
      and later: "index p \<notin> index ` set ps2"
  proof -
    from ok obtain a where a: "resolve_params req [] ps1 = Inr a"
      and rest: "resolve_params req (js_set (Val JUndefined) a (index p) (Val JUndefined)) ps2
                   = Inr args"
      by (auto simp: buildRouteArgs_def resolve_params_append step split: sum.splits)
    have "index p < length (js_set (Val JUndefined) a (index p) (Val JUndefined))"
      by (simp add: js_set_length)
    from resolve_params_keeps[OF rest later this] show ?thesis
      by (simp add: js_set_nth_same)
  qed
  from single same_error placed step show ?thesis by blast
qed

text \<open>
  The kind \<open>cookie\<close> at index 2, alone and between the two descriptors of the route
  \<open>/items/:id\<close>.
\<close>

theorem unknown_kind_resolves_undefined_witness:
  "param_kind \<lparr>index = 2, paramType = ''cookie:sid''\<rparr> \<notin> set known_kinds
   \<and> buildRouteArgs example_request (Some [\<lparr>index = 2, paramType = ''cookie:sid''\<rparr>])
       = Inr [Val JUndefined, Val JUndefined, Val JUndefined]
   \<and> buildRouteArgs example_request
        (Some [\<lparr>index = 0, paramType = ''param:id''\<rparr>, \<lparr>index = 2, paramType = ''cookie:sid''\<rparr>,
               \<lparr>index = 1, paramType = ''query:q''\<rparr>])
       = Inr [Val (JStr ''42''), Val (JStr ''foo''), Val JUndefined]
   \<and> index \<lparr>index = 2, paramType = ''cookie:sid''\<rparr>
        \<notin> index ` set [\<lparr>index = 1, paramType = ''query:q''\<rparr>]
   \<and> [Val (JStr ''42''), Val (JStr ''foo''), Val JUndefined]
        ! index \<lparr>index = 2, paramType = ''cookie:sid''\<rparr> = Val JUndefined"
proof -
  have k: "param_kind \<lparr>index = 2, paramType = ''cookie:sid''\<rparr> \<notin> set known_kinds"
    by (simp add: param_kind_def known_kinds_def)
  from unknown_kind_resolves_undefined
         [OF k, of example_request "[\<lparr>index = 0, paramType = ''param:id''\<rparr>]"
            "[\<lparr>index = 1, paramType = ''query:q''\<rparr>]" JNull
            "[Val (JStr ''42''), Val (JStr ''foo''), Val JUndefined]" "[]"] k
  show ?thesis
    by (simp add: resolve_eval example_request_def numeral_2_eq_2)
qed

text \<open>
  Claim C6. Each round writes the resolved value at the descriptor's own index; so, for
  descriptors with distinct indices that all resolve, every descriptor's value stands at
  its index in the result, whatever the order of declaration. For the route
  \<open>/items/:id\<close> called as \<open>/items/42?q=foo\<close> the arguments are \<open>["42", "foo"]\<close>,
  also when the two descriptors are declared in the other order.
\<close>

theorem args_placed_by_index:
  "(resolve_value req p = Inr v \<longrightarrow>
      resolve_param req xs p = Inr (js_set (Val JUndefined) xs (index p) v))
   \<and> (buildRouteArgs req (Some ps) = Inr args \<longrightarrow> distinct (map index ps) \<longrightarrow> p \<in> set ps \<longrightarrow>
        index p < length args \<and> resolve_value req p = Inr (args ! index p))
   \<and> buildRouteArgs example_request
        (Some [\<lparr>index = 0, paramType = ''param:id''\<rparr>, \<lparr>index = 1, paramType = ''query:q''\<rparr>])
      = Inr [Val (JStr ''42''), Val (JStr ''foo'')]
   \<and> buildRouteArgs example_request
        (Some [\<lparr>index = 1, paramType = ''query:q''\<rparr>, \<lparr>index = 0, paramType = ''param:id''\<rparr>])
      = Inr [Val (JStr ''42''), Val (JStr ''foo'')]"
proof (intro conjI impI)
  assume "resolve_value req p = Inr v"
  then show "resolve_param req xs p = Inr (js_set (Val JUndefined) xs (index p) v)"
    by (simp add: resolve_param_def)
next
  assume "buildRouteArgs req (Some ps) = Inr args" "distinct (map index ps)" "p \<in> set ps"
  then have "index p < length args \<and> resolve_value req p = Inr (args ! index p)"
    using resolve_params_places[of req "[]" ps args p] by (simp add: buildRouteArgs_def)
  then show "index p < length args" "resolve_value req p = Inr (args ! index p)" by simp_all
next
  show "buildRouteArgs example_request
          (Some [\<lparr>index = 0, paramType = ''param:id''\<rparr>, \<lparr>index = 1, paramType = ''query:q''\<rparr>])
        = Inr [Val (JStr ''42''), Val (JStr ''foo'')]"
    by (simp add: resolve_eval example_request_def)
next
  show "buildRouteArgs example_request
          (Some [\<lparr>index = 1, paramType = ''query:q''\<rparr>, \<lparr>index = 0, paramType = ''param:id''\<rparr>])
        = Inr [Val (JStr ''42''), Val (JStr ''foo'')]"
    by (simp add: resolve_eval example_request_def)
qed

text \<open>
  The query descriptor, declared first with index 1, ends at position 1 of the result.
\<close>

theorem args_placed_by_index_witness:
  "resolve_value example_request \<lparr>index = 1, paramType = ''query:q''\<rparr> = Inr (Val (JStr ''foo''))
   \<and> buildRouteArgs example_request
        (Some [\<lparr>index = 1, paramType = ''query:q''\<rparr>, \<lparr>index = 0, paramType = ''param:id''\<rparr>])
      = Inr [Val (JStr ''42''), Val (JStr ''foo'')]
   \<and> distinct (map index [\<lparr>index = 1, paramType = ''query:q''\<rparr>,
                            \<lparr>index = 0, paramType = ''param:id''\<rparr>])
   \<and> \<lparr>index = 1, paramType = ''query:q''\<rparr>
        \<in> set [\<lparr>index = 1, paramType = ''query:q''\<rparr>, \<lparr>index = 0, paramType = ''param:id''\<rparr>]
   \<and> [Val (JStr ''42''), Val (JStr ''foo'')] ! index \<lparr>index = 1, paramType = ''query:q''\<rparr>
        = Val (JStr ''foo'')"
  using args_placed_by_index
          [of example_request "\<lparr>index = 1, paramType = ''query:q''\<rparr>" "Val (JStr ''foo'')" "[]"
              "[\<lparr>index = 1, paramType = ''query:q''\<rparr>, \<lparr>index = 0, paramType = ''param:id''\<rparr>]"
              "[Val (JStr ''42''), Val (JStr ''foo'')]"]
  by (simp add: resolve_eval example_request_def)

section \<open>Facts about controller binding\<close>

lemma has_dup_sep_Cons:
  "has_dup_sep (a # xs) = ((a = CHR ''/'' \<and> xs \<noteq> [] \<and> hd xs = CHR ''/'') \<or> has_dup_sep xs)"
  by (cases xs) auto

lemma has_dup_sep_append:
  "has_dup_sep (xs @ ys) =
     (has_dup_sep xs \<or> has_dup_sep ys
      \<or> (xs \<noteq> [] \<and> ys \<noteq> [] \<and> last xs = CHR ''/'' \<and> hd ys = CHR ''/''))"
proof (induction xs)
  case Nil
  then show ?case by simp
next
  case (Cons a xs)
  show ?case
  proof (cases xs)
    case Nil
    then show ?thesis by (auto simp: has_dup_sep_Cons)
  next
    case (Cons b bs)
    with Cons.IH show ?thesis by auto
  qed
qed

lemma one_leading_slash_Cons:
  "one_leading_slash (a # xs) = (a = CHR ''/'' \<and> (xs = [] \<or> hd xs \<noteq> CHR ''/''))"
  by (cases xs) auto

lemmas binding_eval =
  bind_controller_def resolve_dependencies_def register_route_def fullPath_def
  toLowerCase_def lower_char_def example_server_def items_route_def trace_route_def
  items_controller_def

text \<open>
  Claim C7, as stated, fails: the template puts a slash before the prefix and joins the
  sub-path with another, and normalizes nothing. A prefix that begins with a slash gives
  a path with two leading slashes.
\<close>

theorem fullPath_keeps_duplicate_slash:
  "fullPath ''/api'' ''users'' = ''//api/users''
   \<and> \<not> normalized_path (fullPath ''/api'' ''users'')"
  by (simp add: normalized_path_def fullPath_def)

text \<open>
  Claim C7, amended. The registered path is a slash, the prefix, and, for a non-empty
  sub-path, a slash and the sub-path. It has one leading slash and no doubled separator
  exactly when prefix and sub-path are both empty, or the prefix is non-empty, does not
  begin with a slash and has no doubled separator, and the sub-path is empty or joins
  cleanly (the prefix does not end with a slash, the sub-path does not begin with one
  and has no doubled separator). A route whose method the server has is registered at
  that path.
\<close>

theorem fullPath_shape:
  "fullPath pfx sub = CHR ''/'' # pfx @ (if sub = [] then [] else CHR ''/'' # sub)
   \<and> (normalized_path (fullPath pfx sub) \<longleftrightarrow>
        (pfx = [] \<and> sub = []) \<or>
        (pfx \<noteq> [] \<and> hd pfx \<noteq> CHR ''/'' \<and> \<not> has_dup_sep pfx \<and>
           (sub = [] \<or> (last pfx \<noteq> CHR ''/'' \<and> hd sub \<noteq> CHR ''/'' \<and> \<not> has_dup_sep sub))))
   \<and> (srv (toLowerCase (rmethod r)) = Callable \<longrightarrow>
        (\<exists>e. register_route srv inst pfx tbl r = Inr (tbl @ [e])
              \<and> e_path e = fullPath pfx (rpath r)))"
proof (intro conjI)
  show "fullPath pfx sub = CHR ''/'' # pfx @ (if sub = [] then [] else CHR ''/'' # sub)"
    by (simp add: fullPath_def)
next
  show "normalized_path (fullPath pfx sub) \<longleftrightarrow>
        (pfx = [] \<and> sub = []) \<or>
        (pfx \<noteq> [] \<and> hd pfx \<noteq> CHR ''/'' \<and> \<not> has_dup_sep pfx \<and>
           (sub = [] \<or> (last pfx \<noteq> CHR ''/'' \<and> hd sub \<noteq> CHR ''/'' \<and> \<not> has_dup_sep sub)))"
  proof (cases "pfx = []")
    case True
    then show ?thesis
      by (cases sub) (auto simp: normalized_path_def fullPath_def)
  next
    case False
    then show ?thesis
      by (auto simp: normalized_path_def fullPath_def one_leading_slash_Cons
            has_dup_sep_Cons has_dup_sep_append)
  qed
next
  show "srv (toLowerCase (rmethod r)) = Callable \<longrightarrow>
        (\<exists>e. register_route srv inst pfx tbl r = Inr (tbl @ [e])
              \<and> e_path e = fullPath pfx (rpath r))"
    by (simp add: register_route_def Let_def)
qed

text \<open>The prefix \<open>items\<close> and the sub-path \<open>:id\<close> join cleanly.\<close>

theorem fullPath_shape_witness:
  "fullPath ''items'' '':id'' = ''/items/:id''
   \<and> normalized_path (fullPath ''items'' '':id'')
   \<and> example_server (toLowerCase (rmethod items_route)) = Callable
   \<and> register_route example_server () ''items'' [] items_route =
        Inr [\<lparr>e_method = ''get'', e_path = ''/items/:id'', e_instance = (),
              e_route = items_route, e_wrapped = False\<rparr>]"
  using fullPath_shape [of "''items''" "'':id''" example_server items_route "()" "[]"]
  by (simp add: binding_eval)

text \<open>
  Claim C8, as stated, fails: with an empty provider map the controller that needs an
  \<open>ItemService\<close> is constructed all the same, with \<open>undefined\<close> as its dependency,
  and its route is registered; binding reports no error.
\<close>

theorem missing_provider_binds_anyway:
  "registerControllers example_server (Map.empty :: string \<rightharpoonup> nat) [] [items_controller] =
     Inr [\<lparr>e_method = ''get'', e_path = ''/items/:id'', e_instance = [None],
           e_route = items_route, e_wrapped = False\<rparr>]"
  by (simp add: binding_eval)

text \<open>
  Claim C8, amended. A declared dependency type that the provider map does not have is
  passed to the constructor as \<open>undefined\<close> in its position, and the binder raises no
  error for it: when the constructor returns an instance, binding goes on to register
  the controller's routes on that instance.
\<close>

theorem missing_dependency_is_undefined:
  "i < length (paramTypes c) \<Longrightarrow> providersMap (paramTypes c ! i) = None \<Longrightarrow>
   construct c (resolve_dependencies providersMap (paramTypes c)) = Inr inst \<Longrightarrow>
     resolve_dependencies providersMap (paramTypes c) ! i = None
     \<and> bind_controller srv providersMap tbl c
         = register_routes srv inst (prefix c) tbl (routes c)"
  by (simp add: resolve_dependencies_def bind_controller_def)

theorem missing_dependency_is_undefined_witness:
  "0 < length (paramTypes items_controller)
   \<and> (Map.empty :: string \<rightharpoonup> nat) (paramTypes items_controller ! 0) = None
   \<and> construct items_controller (resolve_dependencies Map.empty (paramTypes items_controller))
       = Inr [None]
   \<and> bind_controller example_server Map.empty [] items_controller
       = register_routes example_server [None] ''items'' [] [items_route]"
  using missing_dependency_is_undefined
          [of 0 items_controller Map.empty "[None]" example_server "[]"]
  by (simp add: items_controller_def resolve_dependencies_def)

text \<open>
  Claim C10, as stated, fails: \<open>settings\<close> is a member of the server object but no
  registration method. The guard of line 292 tests only that the member is truthy, so
  the route passes it, the call of line 472 throws a \<open>TypeError\<close>, and the route
  after it is never bound.
\<close>

theorem truthy_member_is_called:
  "register_route settings_server () ''items'' [] settings_route
     = Inl (TypeError ''this.instance[method] is not a function'')
   \<and> register_routes settings_server () ''items'' [] [settings_route, items_route]
     = Inl (TypeError ''this.instance[method] is not a function'')"
  by (simp add: register_route_def settings_server_def settings_route_def toLowerCase_def
        lower_char_def)

text \<open>
  Claim C10, amended. A route is skipped exactly when the member of the server object
  named by its lower-cased method is missing or falsy: then the table is unchanged, no
  error is raised, and the routes before and after it are bound as if it were not in
  the list. A truthy member is called with the path and the dispatch function, whether
  it is a registration method or not; when it is no function, the call throws a
  \<open>TypeError\<close> and the binding of the remaining routes is abandoned.
\<close>

theorem falsy_method_is_skipped:
  "((register_route srv inst pfx tbl r = Inr tbl)
      = (\<not> member_truthy (srv (toLowerCase (rmethod r)))))
   \<and> (\<not> member_truthy (srv (toLowerCase (rmethod r))) \<longrightarrow>
        register_routes srv inst pfx tbl (rs1 @ r # rs2)
          = register_routes srv inst pfx tbl (rs1 @ rs2))
   \<and> (srv (toLowerCase (rmethod r)) = Other v \<and> truthy v \<longrightarrow>
        register_routes srv inst pfx tbl (r # rs2)
          = Inl (TypeError ''this.instance[method] is not a function''))
   \<and> (srv (toLowerCase (rmethod r)) = Callable \<longrightarrow>
        register_route srv inst pfx tbl r
          = Inr (tbl @ [\<lparr>e_method = toLowerCase (rmethod r), e_path = fullPath pfx (rpath r),
                         e_instance = inst, e_route = r,
                         e_wrapped = (middlewares r \<noteq> None)\<rparr>]))"
proof (intro conjI impI)
  show "(register_route srv inst pfx tbl r = Inr tbl)
          = (\<not> member_truthy (srv (toLowerCase (rmethod r))))"
    by (cases "srv (toLowerCase (rmethod r))") (auto simp: register_route_def Let_def)
next
  assume a: "\<not> member_truthy (srv (toLowerCase (rmethod r)))"
  have skip: "\<And>t. register_route srv inst pfx t r = Inr t"
    using a by (simp add: register_route_def Let_def)
  show "register_routes srv inst pfx tbl (rs1 @ r # rs2)
          = register_routes srv inst pfx tbl (rs1 @ rs2)"
    by (induction rs1 arbitrary: tbl) (auto simp: skip split: sum.splits)
next
  assume "srv (toLowerCase (rmethod r)) = Other v \<and> truthy v"
  then show "register_routes srv inst pfx tbl (r # rs2)
               = Inl (TypeError ''this.instance[method] is not a function'')"
    by (simp add: register_route_def Let_def)
next
  assume "srv (toLowerCase (rmethod r)) = Callable"
  then show "register_route srv inst pfx tbl r
          = Inr (tbl @ [\<lparr>e_method = toLowerCase (rmethod r), e_path = fullPath pfx (rpath r),
                         e_instance = inst, e_route = r,
                         e_wrapped = (middlewares r \<noteq> None)\<rparr>])"
    by (simp add: register_route_def Let_def)
qed

text \<open>
  The server has no \<open>trace\<close>: that route is skipped and the \<open>GET\<close> route after it
  is still registered. Its \<open>settings\<close> is truthy and no function: that route throws.
\<close>

theorem falsy_method_is_skipped_witness:
  "\<not> member_truthy (settings_server (toLowerCase (rmethod trace_route)))
   \<and> register_route settings_server () ''items'' [] trace_route = Inr []
   \<and> register_routes settings_server () ''items'' [] [trace_route, items_route]
       = register_routes settings_server () ''items'' [] [items_route]
   \<and> register_routes settings_server () ''items'' [] [trace_route, items_route]
       = Inr [\<lparr>e_method = ''get'', e_path = ''/items/:id'', e_instance = (),
               e_route = items_route, e_wrapped = False\<rparr>]
   \<and> settings_server (toLowerCase (rmethod settings_route))
       = Other (JObj [(''env'', JStr ''development'')])
   \<and> truthy (JObj [(''env'', JStr ''development'')])
   \<and> settings_server (toLowerCase (rmethod items_route)) = Callable"
  using falsy_method_is_skipped
          [of settings_server "()" "''items''" "[]" trace_route "[]" "[items_route]"]
        falsy_method_is_skipped
          [of settings_server "()" "''items''" "[]" settings_route _ "[items_route]"
              "JObj [(''env'', JStr ''development'')]"]
  by (simp add: binding_eval settings_server_def settings_route_def)

section \<open>Facts about shutdown\<close>

lemma foldl_destroy_open:
  "openConnections (foldl destroy_socket a xs) = filter (\<lambda>s. s \<notin> set xs) (openConnections a)"
  by (induction xs arbitrary: a)
     (auto simp: destroy_socket_def removeAll_filter_not_eq intro: filter_cong)

lemma foldl_destroy_destroyed: "destroyed (foldl destroy_socket a xs) = destroyed a @ xs"
  by (induction xs arbitrary: a) (auto simp: destroy_socket_def)

lemma foldl_destroy_server: "httpServer (foldl destroy_socket a xs) = httpServer a"
  by (induction xs arbitrary: a) (auto simp: destroy_socket_def)

lemma foldl_destroy_enabled:
  "instance_enabled (foldl destroy_socket a xs) = instance_enabled a"
  by (induction xs arbitrary: a) (auto simp: destroy_socket_def)

lemma closeOpenConnections_empties:
  "openConnections (closeOpenConnections a) = []
   \<and> destroyed (closeOpenConnections a) = destroyed a @ openConnections a"
  by (simp add: closeOpenConnections_def foldl_destroy_open foldl_destroy_destroyed)

text \<open>
  On every path of \<open>close\<close>, every tracked socket is destroyed and the set is left
  empty.
\<close>

lemma close_destroys_all:
  "openConnections (snd (close f a)) = []
   \<and> destroyed (snd (close f a)) = destroyed a @ openConnections a"
  by (auto simp: close_def Let_def closeOpenConnections_empties
           split: option.splits prod.splits close_signal.splits)

text \<open>An adapter that never made a server returns from \<open>close\<close> at once.\<close>

lemma close_without_server:
  "httpServer a = None \<Longrightarrow> fst (close f a) = ReturnedUndefined"
  by (simp add: close_def Let_def closeOpenConnections_def foldl_destroy_server)

text \<open>
  \<open>close\<close> keeps the server and the member \<open>enabled\<close>; so a second call on
  an adapter whose \<open>connected()\<close> is truthy asks the server to close once more,
  and is rejected whenever the server then reports an error.
\<close>

lemma repeated_close_asks_server_again:
  assumes "httpServer a = Some h" and "member_truthy (instance_enabled a)"
    and "server_close h = (CallbackErr err1, h1)"
    and "server_close h1 = (CallbackErr err2, h2)" and "truthy err2"
  shows "fst (close server_close (snd (close server_close a))) = Rejected err2"
proof -
  let ?a1 = "(closeOpenConnections a)\<lparr>httpServer := Some h1\<rparr>"
  have keep: "httpServer (closeOpenConnections a) = Some h"
    "instance_enabled (closeOpenConnections a) = instance_enabled a"
    using assms(1) by (simp_all add: closeOpenConnections_def foldl_destroy_server
                         foldl_destroy_enabled)
  have first: "snd (close server_close a) = ?a1"
    using assms(2,3) keep by (simp add: close_def Let_def)
  have keep2: "httpServer (closeOpenConnections ?a1) = Some h1"
    "instance_enabled (closeOpenConnections ?a1) = instance_enabled a"
    using keep by (simp_all add: closeOpenConnections_def foldl_destroy_server
                     foldl_destroy_enabled)
  have second: "fst (close server_close ?a1) = Rejected err2"
    using assms(2,4,5) keep2 by (simp add: close_def Let_def)
  show ?thesis
    unfolding first by (rule second)
qed

text \<open>
  Claim C9 at the second call. \<open>close\<close> neither forgets the server nor changes what
  \<open>connected()\<close> returns, and on an Express application that is the function
  \<open>enabled\<close>, which is truthy; so the second call asks the stopped server to close
  again, and the promise is rejected with the server's error.
\<close>

theorem second_close_rejects:
  "fst (close node_close running_adapter) = Resolved
   \<and> close node_close (snd (close node_close running_adapter))
       = (Rejected ERR_SERVER_NOT_RUNNING,
          \<lparr>openConnections = [], httpServer = Some NotRunning, instance_enabled = Callable,
           destroyed = [1, 2]\<rparr>)"
  by (simp add: close_def running_adapter_def closeOpenConnections_def destroy_socket_def
        ERR_SERVER_NOT_RUNNING_def)

section \<open>Facts about request dispatch\<close>

text \<open>The length guards around the two loops change nothing.\<close>

lemma interceptor_guard:
  "(if length ics > 0 then run_interceptors ics ident req s else (Continue, s, []))
     = run_interceptors ics ident req s"
  "(if ics \<noteq> [] then run_interceptors ics ident req s else (Continue, s, []))
     = run_interceptors ics ident req s"
  by (cases ics; simp)+

lemma afterRender_guard:
  "(if length hs > 0 then run_afterRender hs ident req c s else (None, s, []))
     = run_afterRender hs ident req c s"
  "(if hs \<noteq> [] then run_afterRender hs ident req c s else (None, s, []))
     = run_afterRender hs ident req c s"
  by (cases hs; simp)+

lemma responses_simps:
  "responses [] = []"
  "responses (e # es) = (if is_response e then e # responses es else responses es)"
  "responses (xs @ ys) = responses xs @ responses ys"
  by (simp_all add: responses_def)

text \<open>
  The interceptor loop records one return per interceptor it ran; all of them are falsy
  but possibly the last, and the last one is truthy exactly when the loop breaks.
\<close>

lemma run_interceptors_events:
  "run_interceptors ics ident req s = (r, s', evs) \<Longrightarrow>
     (case r of
        Continue \<Rightarrow> list_all passed_interceptor evs
      | Break \<Rightarrow> (\<exists>pre w. evs = pre @ [InterceptorReturned w] \<and> truthy w
                    \<and> list_all passed_interceptor pre)
      | Raised x \<Rightarrow> (\<exists>pre. evs = pre @ [InterceptorThrew x] \<and> list_all passed_interceptor pre))"
proof (induction ics arbitrary: s r s' evs)
  case Nil
  then show ?case by simp
next
  case (Cons i ics)
  obtain o1 s1 where step: "i ident req s = (o1, s1)" by (cases "i ident req s")
  show ?case
  proof (cases o1)
    case (Thrown x)
    with Cons.prems step show ?thesis by auto
  next
    case (Returned v)
    show ?thesis
    proof (cases "truthy v")
      case True
      with Cons.prems step Returned show ?thesis by auto
    next
      case False
      obtain r2 s2 evs2 where rest: "run_interceptors ics ident req s1 = (r2, s2, evs2)"
        by (cases "run_interceptors ics ident req s1")
      from Cons.prems step Returned False rest
      have eq: "r = r2" "evs = InterceptorReturned v # evs2" by auto
      from Cons.IH[OF rest] False eq show ?thesis
        by (cases r2) (auto simp: Cons_eq_append_conv)
    qed
  qed
qed

lemma run_afterRender_events:
  "run_afterRender hs ident req c s = (r, s', evs) \<Longrightarrow> set evs \<subseteq> {AfterRenderInvoked c}"
proof (induction hs arbitrary: s r s' evs)
  case Nil
  then show ?case by simp
next
  case (Cons h hs)
  obtain o1 s1 where step: "h ident req c s = (o1, s1)" by (cases "h ident req c s")
  show ?case
  proof (cases o1)
    case (Thrown x)
    with Cons.prems step show ?thesis by auto
  next
    case (Returned v)
    obtain r2 s2 evs2 where rest: "run_afterRender hs ident req c s1 = (r2, s2, evs2)"
      by (cases "run_afterRender hs ident req c s1")
    from Cons.prems step Returned rest have "evs = AfterRenderInvoked c # evs2" by auto
    with Cons.IH[OF rest] show ?thesis by auto
  qed
qed

lemma responses_afterRender:
  "run_afterRender hs ident req c s = (r, s', evs) \<Longrightarrow> responses evs = []"
  using run_afterRender_events[of hs ident req c s r s' evs]
  by (auto simp: responses_def filter_empty_conv)

lemma passed_facts:
  "list_all passed_interceptor evs \<Longrightarrow>
     responses evs = [] \<and> (\<forall>v. InterceptorReturned v \<in> set evs \<longrightarrow> \<not> truthy v)
     \<and> (\<forall>v. HandlerReturned v \<notin> set evs) \<and> (\<forall>a. HandlerInvoked a \<notin> set evs)
     \<and> (\<forall>c. AfterRenderInvoked c \<notin> set evs)"
  by (induction evs) (auto simp: responses_simps elim: passed_interceptor.elims)

text \<open>
  What \<open>respond\<close> can do: it never returns early; when it throws it has written
  nothing, and the result was JSON or truthy (only then do hooks run and is a write
  tried); when it finishes it has written at most one response, an envelope with status
  200 or the raw result, and none exactly for a result that is neither JSON nor truthy.
\<close>

lemma respond_shape:
  assumes "respond app req start result s = (r, s', evs)"
  shows "r \<noteq> EarlyReturn
    \<and> (\<forall>e. r = Threw e \<longrightarrow> responses evs = [] \<and> (isJson app result \<or> truthy result))
    \<and> (r = Finished \<longrightarrow> length (responses evs) \<le> 1
          \<and> (\<forall>x\<in>set (responses evs). envelope_status x = Some 200
                 \<or> (x = ResStatusSend 200 result \<and> \<not> isJson app result \<and> truthy result))
          \<and> (responses evs = [] \<longleftrightarrow> \<not> isJson app result \<and> \<not> truthy result))
    \<and> list_all (\<lambda>e. (\<forall>v. e \<noteq> InterceptorReturned v) \<and> (\<forall>v. e \<noteq> HandlerReturned v)) evs"
proof -
  let ?rid = "requestId req"
  let ?s2 = "tel_end ''Request Process'' ?rid (tel_end ''Controller Handler'' ?rid s)"
  have hooks: "list_all (\<lambda>e. (\<forall>v. e \<noteq> InterceptorReturned v) \<and> (\<forall>v. e \<noteq> HandlerReturned v)) evs2
               \<and> responses evs2 = []"
    if "run_afterRender (httpAfterRender app) (route_identity req) req c ?s2 = (r2, s3, evs2)"
    for c r2 s3 evs2
    using run_afterRender_events[OF that] responses_afterRender[OF that]
    by (auto simp: list_all_iff)
  show ?thesis
  proof (cases "isJson app result")
    case True
    let ?resp = "\<lparr>status = 200,
                processingTime = clock (tel_end ''Controller Handler'' ?rid s) - start,
                data = Some result, message = None,
                dbg_requestId = (if debug_requested req then Some ?rid else None),
                dbg_telemetry =
                  (if debug_requested req then Some (getTelemetry ?rid (telem ?s2)) else None)\<rparr>"
    obtain r2 s3 evs2 where ar:
      "run_afterRender (httpAfterRender app) (route_identity req) req (EnvelopeContent ?resp) ?s2
         = (r2, s3, evs2)"
      by (cases "run_afterRender (httpAfterRender app) (route_identity req) req
                   (EnvelopeContent ?resp) ?s2")
    show ?thesis
    proof (cases r2)
      case (Some e)
      with assms True ar hooks[OF ar] show ?thesis
        by (auto simp: respond_def Let_def afterRender_guard)
    next
      case None
      show ?thesis
      proof (cases "res_write app (ResJson ?resp) s3")
        case wn: None
        with assms True ar None hooks[OF ar] show ?thesis
          by (auto simp: respond_def Let_def afterRender_guard responses_simps)
      next
        case (Some e)
        with assms True ar None hooks[OF ar] show ?thesis
          by (auto simp: respond_def Let_def afterRender_guard)
      qed
    qed
  next
    case False
    show ?thesis
    proof (cases "truthy result")
      case True
      obtain r2 s3 evs2 where ar:
        "run_afterRender (httpAfterRender app) (route_identity req) req (RawContent result) ?s2
           = (r2, s3, evs2)"
        by (cases "run_afterRender (httpAfterRender app) (route_identity req) req
                     (RawContent result) ?s2")
      show ?thesis
      proof (cases r2)
        case (Some e)
        with assms False True ar hooks[OF ar] show ?thesis
          by (auto simp: respond_def Let_def afterRender_guard)
      next
        case None
        show ?thesis
        proof (cases "res_write app (ResStatusSend 200 result) s3")
          case wn: None
          with assms False True ar None hooks[OF ar] show ?thesis
            by (auto simp: respond_def Let_def afterRender_guard responses_simps)
        next
          case (Some e)
          with assms False True ar None hooks[OF ar] show ?thesis
            by (auto simp: respond_def Let_def afterRender_guard)
        qed
      qed
    next
      case nt: False
      with assms False show ?thesis
        by (auto simp: respond_def Let_def responses_simps)
    qed
  qed
qed

text \<open>The three ways the \<open>try\<close> block ends, and what it has recorded in each.\<close>

lemma try_body_cases:
  assumes "try_body app inst route req start s0 = (r, s1, evs)"
  shows "case r of
      EarlyReturn \<Rightarrow>
        (\<exists>pre w. evs = pre @ [InterceptorReturned w] \<and> truthy w \<and> list_all passed_interceptor pre)
    | Threw e \<Rightarrow>
        responses evs = [] \<and> (\<forall>v. InterceptorReturned v \<in> set evs \<longrightarrow> \<not> truthy v)
        \<and> (\<forall>v. HandlerReturned v \<in> set evs \<longrightarrow> isJson app v \<or> truthy v)
    | Finished \<Rightarrow>
        (\<forall>v. InterceptorReturned v \<in> set evs \<longrightarrow> \<not> truthy v)
        \<and> length (responses evs) \<le> 1
        \<and> (\<exists>result. (\<forall>v. HandlerReturned v \<in> set evs \<longleftrightarrow> v = result)
              \<and> (responses evs = [] \<longleftrightarrow> \<not> isJson app result \<and> \<not> truthy result)
              \<and> (\<forall>x\<in>set (responses evs). envelope_status x = Some 200
                     \<or> (x = ResStatusSend 200 result \<and> \<not> isJson app result
                         \<and> truthy result)))"
proof -
  obtain ir si ievs where ic:
    "run_interceptors (httpInterceptors app) (route_identity req) req s0 = (ir, si, ievs)"
    by (cases "run_interceptors (httpInterceptors app) (route_identity req) req s0")
  note ic_shape = run_interceptors_events[OF ic]
  show ?thesis
  proof (cases ir)
    case Break
    with assms ic ic_shape show ?thesis
      by (auto simp: try_body_def interceptor_guard)
  next
    case (Raised x)
    with ic_shape obtain pre where pre: "ievs = pre @ [InterceptorThrew x]"
      "list_all passed_interceptor pre" by auto
    from assms ic Raised have "r = Threw x" "evs = ievs"
      by (auto simp: try_body_def interceptor_guard)
    with pre passed_facts[OF pre(2)] show ?thesis
      by (auto simp: responses_simps)
  next
    case Continue
    with ic_shape have pass: "list_all passed_interceptor ievs" by simp
    note pf = passed_facts[OF pass]
    show ?thesis
    proof (cases "buildRouteArgs req (rparams route)")
      case (Inl e)
      with assms ic Continue have "r = Threw e" "evs = ievs"
        by (auto simp: try_body_def interceptor_guard)
      with pf show ?thesis by auto
    next
      case (Inr args)
      let ?s2 = "tel_start ''Controller Handler'' (requestId req) si"
      show ?thesis
      proof (cases "inst (handlerName route)")
        case None
        with assms ic Continue Inr have "\<exists>e. r = Threw e" "evs = ievs"
          by (auto simp: try_body_def interceptor_guard Let_def)
        with pf show ?thesis by auto
      next
        case (Some h)
        obtain ho s3 where hc: "h args ?s2 = (ho, s3)" by (cases "h args ?s2")
        show ?thesis
        proof (cases ho)
          case (Thrown e)
          with assms ic Continue Inr Some hc
          have "r = Threw e" "evs = ievs @ [HandlerInvoked args, HandlerThrew e]"
            by (auto simp: try_body_def interceptor_guard Let_def)
          with pf show ?thesis by (auto simp: responses_simps)
        next
          case (Returned result)
          obtain rr s4 revs where rs: "respond app req start result s3 = (rr, s4, revs)"
            by (cases "respond app req start result s3")
          note shape = respond_shape[OF rs]
          from assms ic Continue Inr Some hc Returned rs
          have eq: "r = rr" "evs = ievs @ [HandlerInvoked args, HandlerReturned result] @ revs"
            by (auto simp: try_body_def interceptor_guard Let_def)
          from shape have nr: "\<forall>v. InterceptorReturned v \<notin> set revs"
            "\<forall>v. HandlerReturned v \<notin> set revs"
            by (auto simp: list_all_iff)
          from shape have rne: "rr \<noteq> EarlyReturn" by simp
          show ?thesis
          proof (cases rr)
            case EarlyReturn
            with rne show ?thesis by simp
          next
            case (Threw e)
            with shape eq pf nr show ?thesis by (auto simp: responses_simps)
          next
            case Finished
            with shape have f: "length (responses revs) \<le> 1"
              "\<forall>x\<in>set (responses revs). envelope_status x = Some 200
                 \<or> (x = ResStatusSend 200 result \<and> \<not> isJson app result \<and> truthy result)"
              "responses revs = [] \<longleftrightarrow> \<not> isJson app result \<and> \<not> truthy result" by auto
            have hr: "\<forall>v. HandlerReturned v \<in> set evs \<longleftrightarrow> v = result"
              using eq pf nr by auto
            have re: "responses evs = responses revs"
              using eq pf by (simp add: responses_simps)
            have ir: "\<forall>v. InterceptorReturned v \<in> set evs \<longrightarrow> \<not> truthy v"
              using eq pf nr by auto
            from Finished eq(1) f hr re ir show ?thesis by auto
          qed
        qed
      qed
    qed
  qed
qed

lemma tel_clear_empty: "telem (tel_clear rid s) rid = []"
  by (simp add: tel_clear_def clearTelemetry_def)

lemmas dispatch_eval =
  Let_def handler_def try_body_def respond_def catch_block_def tel_start_def tel_end_def tel_clear_def
  Telemetry_start_def Telemetry_end_def getTelemetry_def clearTelemetry_def begin_request_def
  route_identity_def debug_requested_def buildRouteArgs_def resolve_param_def resolve_value_def
  param_kind_def param_name_def prop_key_def js_get_def object_prototype_names_def js_set_def
  toLowerCase_def lower_char_def
  responses_def

text \<open>
  Claim C2. If, in a dispatch, an interceptor returned a truthy value, then the dispatch
  function returned from the interceptor loop there: that return is the last thing it
  did, it never called the handler, it ran no after-render hook, and it wrote no
  response.
\<close>

theorem interceptor_short_circuit:
  assumes "handler app inst route req s0 = (out, s', log)"
    and "InterceptorReturned v \<in> set log" and "truthy v"
  shows "out = ShortCircuited \<and> last log = InterceptorReturned v
    \<and> (\<forall>args. HandlerInvoked args \<notin> set log)
    \<and> (\<forall>c. AfterRenderInvoked c \<notin> set log)
    \<and> responses log = []"
proof -
  obtain r s1 evs where tb: "try_body app inst route req (clock s0) s0 = (r, s1, evs)"
    by (cases "try_body app inst route req (clock s0) s0")
  note shape = try_body_cases[OF tb]
  show ?thesis
  proof (cases r)
    case Finished
    with assms(1) tb have "log = evs @ [TelemetryCleared (requestId req)]"
      by (simp add: handler_def Let_def)
    with assms(2) have "InterceptorReturned v \<in> set evs" by simp
    with shape Finished assms(3) show ?thesis by simp
  next
    case (Threw e)
    obtain cr s2 where cb: "catch_block app req (clock s0) e s1 = (cr, s2)"
      by (cases "catch_block app req (clock s0) e s1")
    from assms(1) tb Threw cb
    have "set log \<subseteq> set evs \<union> {x. \<exists>c resp. x = ResStatusJson c resp}
                      \<union> {TelemetryCleared (requestId req)}"
      by (cases cr) (auto simp: handler_def Let_def)
    with assms(2) have "InterceptorReturned v \<in> set evs" by auto
    with shape Threw assms(3) show ?thesis by simp
  next
    case EarlyReturn
    with shape obtain pre w where pre: "evs = pre @ [InterceptorReturned w]" "truthy w"
      "list_all passed_interceptor pre" by auto
    from assms(1) tb EarlyReturn have eq: "out = ShortCircuited" "log = evs"
      by (simp_all add: handler_def Let_def)
    note pf = passed_facts[OF pre(3)]
    from assms(2,3) eq pre pf have "v = w" by auto
    with eq pre pf show ?thesis by (auto simp: responses_simps)
  qed
qed

text \<open>
  The scenario of the specification: one interceptor that returns \<open>true\<close>, a handler
  that counts its calls. The counter (the \<open>world\<close>) is still 0 after the dispatch.
\<close>

theorem interceptor_short_circuit_witness:
  "handler blocking_app counting_instance items_route example_request started_env
     = (ShortCircuited, started_env, [InterceptorReturned (JBool True)])
   \<and> InterceptorReturned (JBool True) \<in> set [InterceptorReturned (JBool True)]
   \<and> truthy (JBool True)
   \<and> world started_env = 0
   \<and> (\<forall>args. HandlerInvoked args \<notin> set [InterceptorReturned (JBool True)])
   \<and> (\<forall>c. AfterRenderInvoked c \<notin> set [InterceptorReturned (JBool True)])
   \<and> responses [InterceptorReturned (JBool True)] = []"
proof -
  have d: "handler blocking_app counting_instance items_route example_request started_env
     = (ShortCircuited, started_env, [InterceptorReturned (JBool True)])"
    by (simp add: handler_def try_body_def blocking_app_def)
  have w: "world started_env = 0"
    by (simp add: started_env_def begin_request_def tel_start_def)
  from interceptor_short_circuit[OF d, of "JBool True"] d w show ?thesis by simp
qed

text \<open>
  A handler that throws, after interceptors that all let the request pass and arguments
  that resolve, makes the \<open>try\<close> block throw the same value.
\<close>

lemma handler_throw_leaves_try:
  assumes "run_interceptors (httpInterceptors app) (route_identity req) req s0
             = (Continue, s1, ievs)"
    and "buildRouteArgs req (rparams route) = Inr args"
    and "inst (handlerName route) = Some h"
    and "h args (tel_start ''Controller Handler'' (requestId req) s1) = (Thrown e, s2)"
  shows "try_body app inst route req start s0
           = (Threw e, s2, ievs @ [HandlerInvoked args, HandlerThrew e])"
  using assms by (simp add: try_body_def interceptor_guard Let_def)

text \<open>
  When the \<open>try\<close> block throws a value whose \<open>message\<close> can be read, as \<open>m\<close>
  (this covers the handler, the argument resolution, the hooks and the writes), and the
  write of line 427 returns, the dispatch function has written exactly one response,
  \<open>res.status(500).json(response)\<close>, whose envelope has status 500, the elapsed time
  as \<open>processingTime\<close>, and as message \<open>m\<close>, or \<open>Internal Server Error\<close> when
  \<open>m\<close> is falsy; \<open>requestId\<close> and \<open>telemetry\<close> are present exactly when
  \<open>req.query.debug\<close> is truthy. The function then runs to its end.
\<close>

lemma readable_error_envelope:
  assumes "try_body app inst route req (clock s0) s0 = (Threw e, s1, evs)"
    and "get_prop e ''message'' = Inr m"
    and "response =
           \<lparr>status = 500, processingTime = clock s1 - clock s0, data = None,
            message = Some (if truthy m then m else JStr ''Internal Server Error''),
            dbg_requestId = (if debug_requested req then Some (requestId req) else None),
            dbg_telemetry =
              (if debug_requested req
               then Some (getTelemetry (requestId req)
                            (telem (tel_end ''Request Process'' (requestId req) s1)))
               else None)\<rparr>"
    and "res_write app (ResStatusJson 500 response)
           (tel_end ''Request Process'' (requestId req) s1) = None"
  shows "handler app inst route req s0 =
      (Completed,
       tel_clear (requestId req) (tel_end ''Request Process'' (requestId req) s1),
       evs @ [ResStatusJson 500 response, TelemetryCleared (requestId req)])
    \<and> responses evs = []"
proof -
  from try_body_cases[OF assms(1)] have "responses evs = []" by simp
  moreover from assms(2,3,4)
  have "catch_block app req (clock s0) e s1
          = (Inr response, tel_end ''Request Process'' (requestId req) s1)"
    by (simp add: catch_block_def Let_def)
  with assms(1) have "handler app inst route req s0 =
      (Completed,
       tel_clear (requestId req) (tel_end ''Request Process'' (requestId req) s1),
       evs @ [ResStatusJson 500 response, TelemetryCleared (requestId req)])"
    by (simp add: handler_def Let_def)
  ultimately show ?thesis by simp
qed

text \<open>
  The scenario of the specification: the handler throws \<open>Error("boom")\<close> and the
  request carries \<open>?debug=1\<close>.
\<close>

lemma boom_envelope:
  "fst (handler plain_app failing_instance items_route debug_request started_env) = Completed
   \<and> responses (snd (snd (handler plain_app failing_instance items_route debug_request
                             started_env)))
      = [ResStatusJson 500
           \<lparr>status = 500, processingTime = 5, data = None, message = Some (JStr ''boom''),
            dbg_requestId = Some ''req-1'',
            dbg_telemetry =
              Some [\<lparr>label = ''Request Process'', startTime = 100, endTime = Some 105\<rparr>,
                    \<lparr>label = ''Controller Handler'', startTime = 100, endTime = None\<rparr>]\<rparr>]"
  by (simp add: dispatch_eval plain_app_def failing_instance_def items_route_def
        debug_request_def example_request_def started_env_def boom_def)

text \<open>
  Claim C3 at a thrown \<open>null\<close>. The handler throws \<open>null\<close>; in the \<open>catch\<close>
  block, building the response reads \<open>error.message\<close> (line 419), which throws a
  \<open>TypeError\<close> on \<open>null\<close>. No response is written, the exception leaves the
  dispatch function, and the telemetry of the request is not cleared.
\<close>

theorem thrown_null_escapes:
  "fst (handler plain_app null_throwing_instance items_route example_request started_env)
     = Escaped (TypeError ''Cannot read properties of null (reading message)'')
   \<and> snd (snd (handler plain_app null_throwing_instance items_route example_request
                  started_env))
     = [HandlerInvoked [Val (JStr ''42''), Val (JStr ''foo'')], HandlerThrew JNull]
   \<and> responses (snd (snd (handler plain_app null_throwing_instance items_route
                             example_request started_env))) = []"
  by (simp add: dispatch_eval plain_app_def null_throwing_instance_def items_route_def
        example_request_def started_env_def)

text \<open>
  Claim C4 on the short-circuit branch. The interceptor returns \<open>true\<close>; the dispatch
  function returns at line 323 and never reaches line 430. The span that the middleware
  opened for the request is still in the store afterwards, and the telemetry was not
  cleared.
\<close>

theorem short_circuit_keeps_telemetry:
  "handler blocking_app counting_instance items_route example_request started_env
     = (ShortCircuited, started_env, [InterceptorReturned (JBool True)])
   \<and> telem started_env (requestId example_request)
       = [\<lparr>label = ''Request Process'', startTime = 100, endTime = None\<rparr>]
   \<and> TelemetryCleared (requestId example_request) \<notin> set [InterceptorReturned (JBool True)]"
  by (simp add: handler_def try_body_def blocking_app_def started_env_def begin_request_def
        tel_start_def Telemetry_start_def example_request_def)

text \<open>
  In general: when the dispatch function returns from the interceptor loop, the
  environment it leaves is the one the interceptors left, telemetry included, and
  nothing but the interceptors' returns was recorded.
\<close>

lemma short_circuit_is_interceptor_state:
  assumes "handler app inst route req s0 = (ShortCircuited, s', log)"
  shows "run_interceptors (httpInterceptors app) (route_identity req) req s0 = (Break, s', log)"
proof -
  obtain ir si ievs where ic:
    "run_interceptors (httpInterceptors app) (route_identity req) req s0 = (ir, si, ievs)"
    by (cases "run_interceptors (httpInterceptors app) (route_identity req) req s0")
  obtain r s1 evs where tb: "try_body app inst route req (clock s0) s0 = (r, s1, evs)"
    by (cases "try_body app inst route req (clock s0) s0")
  have early: "r = EarlyReturn \<and> s1 = s' \<and> evs = log"
  proof (cases r)
    case EarlyReturn
    with assms tb show ?thesis by (simp add: handler_def Let_def)
  next
    case Finished
    with assms tb show ?thesis by (simp add: handler_def Let_def)
  next
    case (Threw e)
    with assms tb show ?thesis
      by (auto simp: handler_def Let_def split: prod.splits sum.splits)
  qed
  have "ir = Break \<and> si = s' \<and> ievs = log"
  proof (cases ir)
    case Break
    with tb ic early show ?thesis by (simp add: try_body_def interceptor_guard)
  next
    case (Raised x)
    with tb ic early show ?thesis by (simp add: try_body_def interceptor_guard)
  next
    case Continue
    have "r \<noteq> EarlyReturn"
    proof (cases "buildRouteArgs req (rparams route)")
      case (Inl e)
      with tb ic Continue show ?thesis by (auto simp: try_body_def interceptor_guard)
    next
      case (Inr args)
      show ?thesis
      proof (cases "inst (handlerName route)")
        case None
        with tb ic Continue Inr show ?thesis
          by (auto simp: try_body_def interceptor_guard Let_def)
      next
        case (Some h)
        obtain ho s3 where hc:
          "h args (tel_start ''Controller Handler'' (requestId req) si) = (ho, s3)"
          by (cases "h args (tel_start ''Controller Handler'' (requestId req) si)")
        show ?thesis
        proof (cases ho)
          case (Thrown e)
          with tb ic Continue Inr Some hc show ?thesis
            by (auto simp: try_body_def interceptor_guard Let_def)
        next
          case (Returned result)
          obtain rr s4 revs where rs: "respond app req (clock s0) result s3 = (rr, s4, revs)"
            by (cases "respond app req (clock s0) result s3")
          from respond_shape[OF rs] have "rr \<noteq> EarlyReturn" by simp
          with tb ic Continue Inr Some hc Returned rs show ?thesis
            by (auto simp: try_body_def interceptor_guard Let_def)
        qed
      qed
    qed
    with early show ?thesis by simp
  qed
  with ic show ?thesis by simp
qed

text \<open>
  On the other two branches the telemetry is cleared, and clearing is the last action.
\<close>

lemma completed_clears_telemetry_last:
  assumes "handler app inst route req s0 = (Completed, s', log)"
  shows "telem s' (requestId req) = [] \<and> last log = TelemetryCleared (requestId req)"
proof -
  obtain r s1 evs where tb: "try_body app inst route req (clock s0) s0 = (r, s1, evs)"
    by (cases "try_body app inst route req (clock s0) s0")
  show ?thesis
  proof (cases r)
    case Finished
    with assms tb show ?thesis by (auto simp: handler_def Let_def tel_clear_empty)
  next
    case EarlyReturn
    with assms tb show ?thesis by (simp add: handler_def Let_def)
  next
    case (Threw e)
    obtain cr s2 where cb: "catch_block app req (clock s0) e s1 = (cr, s2)"
      by (cases "catch_block app req (clock s0) e s1")
    with assms tb Threw show ?thesis
      by (cases cr) (auto simp: handler_def Let_def tel_clear_empty)
  qed
qed

text \<open>
  Claim C1, as stated, fails: a handler that returns \<open>undefined\<close> (it is taken to have
  written the response itself) makes the dispatch function run to its end without
  sending anything.
\<close>

theorem falsy_result_sends_nothing:
  "fst (handler plain_app silent_instance items_route example_request started_env) = Completed
   \<and> snd (snd (handler plain_app silent_instance items_route example_request started_env))
       = [HandlerInvoked [Val (JStr ''42''), Val (JStr ''foo'')], HandlerReturned JUndefined,
          TelemetryCleared ''req-1'']
   \<and> responses (snd (snd (handler plain_app silent_instance items_route example_request
                             started_env)))
       = []"
  by (simp add: dispatch_eval plain_app_def silent_instance_def items_route_def
        example_request_def started_env_def)

text \<open>
  What Express 4 does with a numeric result that is not JSON: \<open>404\<close> is handed to
  \<open>res.status(200).send\<close>, which returns (and answers with the status 404); \<open>42\<close>
  makes the same call throw inside the \<open>try\<close> block, and the \<open>catch\<close> block sends
  the 500 envelope.
\<close>

lemma numeric_result_404:
  "responses (snd (snd (handler plain_app (numeric_instance 404) items_route example_request
                          started_env)))
     = [ResStatusSend 200 (JNum 404)]"
  by (simp add: dispatch_eval plain_app_def numeric_instance_def items_route_def
        example_request_def started_env_def)

lemma numeric_result_42:
  "responses (snd (snd (handler plain_app (numeric_instance 42) items_route example_request
                          started_env)))
     = [ResStatusJson 500
          \<lparr>status = 500, processingTime = 5, data = None,
           message = Some (JStr ''Invalid status code''),
           dbg_requestId = None, dbg_telemetry = None\<rparr>]"
  by (simp add: dispatch_eval plain_app_def numeric_instance_def items_route_def
        example_request_def started_env_def RangeError_def)

text \<open>
  Claim C1, amended. The dispatch function writes at most one response, never two.
  What it writes is a JSON envelope whose status field is 200 or 500, or, for a handler
  result that is truthy and not JSON, that raw result, handed to
  \<open>res.status(200).send\<close>. It writes exactly one response when it runs to its last
  statement and the handler's result, if the handler returned, is JSON or truthy; it
  writes none when an interceptor short-circuits, and none when the handler's result is
  neither JSON nor truthy. Whenever it runs to its last statement, the telemetry of the
  request's identifier is empty afterwards.
\<close>

theorem dispatch_response_count:
  assumes "handler app inst route req s0 = (out, s', log)"
  shows "length (responses log) \<le> 1
    \<and> (\<forall>r\<in>set (responses log).
          envelope_status r = Some 200 \<or> envelope_status r = Some 500
          \<or> (\<exists>v. r = ResStatusSend 200 v \<and> HandlerReturned v \<in> set log
                 \<and> \<not> isJson app v \<and> truthy v))
    \<and> (out = Completed \<and> (\<forall>v. HandlerReturned v \<in> set log \<longrightarrow> isJson app v \<or> truthy v)
          \<longrightarrow> length (responses log) = 1)
    \<and> (out = ShortCircuited \<longrightarrow> responses log = [])
    \<and> (\<forall>v. HandlerReturned v \<in> set log \<and> \<not> isJson app v \<and> \<not> truthy v \<longrightarrow> responses log = [])
    \<and> (out = Completed \<longrightarrow> telem s' (requestId req) = [])"
proof -
  obtain r s1 evs where tb: "try_body app inst route req (clock s0) s0 = (r, s1, evs)"
    by (cases "try_body app inst route req (clock s0) s0")
  note shape = try_body_cases[OF tb]
  show ?thesis
  proof (cases r)
    case Finished
    with assms tb have eq: "out = Completed" "s' = tel_clear (requestId req) s1"
      "log = evs @ [TelemetryCleared (requestId req)]"
      by (simp_all add: handler_def Let_def)
    from eq have re: "responses log = responses evs"
      and hr: "\<And>v. HandlerReturned v \<in> set log \<longleftrightarrow> HandlerReturned v \<in> set evs"
      by (simp_all add: responses_simps)
    from shape Finished obtain result where f: "length (responses evs) \<le> 1"
      "\<forall>v. HandlerReturned v \<in> set evs \<longleftrightarrow> v = result"
      "responses evs = [] \<longleftrightarrow> \<not> isJson app result \<and> \<not> truthy result"
      "\<forall>x\<in>set (responses evs). envelope_status x = Some 200
         \<or> (x = ResStatusSend 200 result \<and> \<not> isJson app result \<and> truthy result)"
      by auto
    have kinds: "\<forall>x\<in>set (responses log).
          envelope_status x = Some 200 \<or> envelope_status x = Some 500
          \<or> (\<exists>v. x = ResStatusSend 200 v \<and> HandlerReturned v \<in> set log
                 \<and> \<not> isJson app v \<and> truthy v)"
    proof
      fix x assume "x \<in> set (responses log)"
      with re f(4) have "envelope_status x = Some 200
         \<or> (x = ResStatusSend 200 result \<and> \<not> isJson app result \<and> truthy result)" by simp
      moreover from f(2) hr have "HandlerReturned result \<in> set log" by simp
      ultimately show "envelope_status x = Some 200 \<or> envelope_status x = Some 500
          \<or> (\<exists>v. x = ResStatusSend 200 v \<and> HandlerReturned v \<in> set log
                 \<and> \<not> isJson app v \<and> truthy v)" by blast
    qed
    have one: "(\<forall>v. HandlerReturned v \<in> set log \<longrightarrow> isJson app v \<or> truthy v)
                 \<longrightarrow> length (responses log) = 1"
    proof
      assume "\<forall>v. HandlerReturned v \<in> set log \<longrightarrow> isJson app v \<or> truthy v"
      with f(2) hr have "isJson app result \<or> truthy result" by blast
      with f(3) have "responses evs \<noteq> []" by blast
      with f(1) re show "length (responses log) = 1" by (cases "responses evs") auto
    qed
    have none: "\<forall>v. HandlerReturned v \<in> set log \<and> \<not> isJson app v \<and> \<not> truthy v
                  \<longrightarrow> responses log = []"
      using f(2,3) hr re by auto
    have len: "length (responses log) \<le> 1" using re f(1) by simp
    have tel: "telem s' (requestId req) = []" using eq(2) by (simp add: tel_clear_empty)
    from len kinds one none tel eq(1) show ?thesis by simp
  next
    case EarlyReturn
    with shape obtain pre w where pre: "evs = pre @ [InterceptorReturned w]"
      "list_all passed_interceptor pre" by auto
    from assms tb EarlyReturn have eq: "out = ShortCircuited" "log = evs"
      by (simp_all add: handler_def Let_def)
    note pf = passed_facts[OF pre(2)]
    from eq pre pf have "responses log = []" by (simp add: responses_simps)
    with eq show ?thesis by simp
  next
    case (Threw e)
    from shape Threw have t: "responses evs = []"
      "\<forall>v. HandlerReturned v \<in> set evs \<longrightarrow> isJson app v \<or> truthy v" by auto
    obtain cr s2 where cb: "catch_block app req (clock s0) e s1 = (cr, s2)"
      by (cases "catch_block app req (clock s0) e s1")
    show ?thesis
    proof (cases cr)
      case (Inl e')
      with assms tb Threw cb have eq: "out = Escaped e'" "log = evs"
        by (simp_all add: handler_def Let_def)
      with t show ?thesis by auto
    next
      case (Inr resp)
      with assms tb Threw cb have eq: "out = Completed" "s' = tel_clear (requestId req) s2"
        "log = evs @ [ResStatusJson 500 resp, TelemetryCleared (requestId req)]"
        by (simp_all add: handler_def Let_def)
      from cb Inr have st: "status resp = 500"
        by (auto simp: catch_block_def Let_def split: sum.splits option.splits)
      from eq t have re: "responses log = [ResStatusJson 500 resp]"
        by (simp add: responses_simps)
      from eq t have hr: "\<And>v. HandlerReturned v \<in> set log \<longleftrightarrow> HandlerReturned v \<in> set evs"
        by simp
      from eq(1,2) re st t(2) hr show ?thesis
        by (auto simp: tel_clear_empty)
    qed
  qed
qed

text \<open>
  A handler that returns an object: one envelope with status 200 is sent, and the
  telemetry of the request is empty afterwards.
\<close>

theorem dispatch_response_count_witness:
  "fst (handler plain_app counting_instance items_route example_request started_env) = Completed
   \<and> snd (snd (handler plain_app counting_instance items_route example_request started_env))
       = [HandlerInvoked [Val (JStr ''42''), Val (JStr ''foo'')],
          HandlerReturned (JObj [(''id'', JStr ''42'')]),
          ResJson \<lparr>status = 200, processingTime = 5, data = Some (JObj [(''id'', JStr ''42'')]),
                   message = None, dbg_requestId = None, dbg_telemetry = None\<rparr>,
          TelemetryCleared ''req-1'']
   \<and> isJson plain_app (JObj [(''id'', JStr ''42'')])
   \<and> envelope_status
        (ResJson \<lparr>status = 200, processingTime = 5, data = Some (JObj [(''id'', JStr ''42'')]),
                  message = None, dbg_requestId = None, dbg_telemetry = None\<rparr>) = Some 200
   \<and> length (responses (snd (snd (handler plain_app counting_instance items_route
                                     example_request started_env)))) = 1
   \<and> telem (fst (snd (handler plain_app counting_instance items_route example_request
                         started_env)))
        (requestId example_request) = []"
proof -
  let ?d = "handler plain_app counting_instance items_route example_request started_env"
  have d: "?d = (fst ?d, fst (snd ?d), snd (snd ?d))" by simp
  have ev: "fst ?d = Completed \<and> snd (snd ?d) =
      [HandlerInvoked [Val (JStr ''42''), Val (JStr ''foo'')],
       HandlerReturned (JObj [(''id'', JStr ''42'')]),
       ResJson \<lparr>status = 200, processingTime = 5, data = Some (JObj [(''id'', JStr ''42'')]),
                message = None, dbg_requestId = None, dbg_telemetry = None\<rparr>,
       TelemetryCleared ''req-1'']"
    by (simp add: dispatch_eval plain_app_def counting_instance_def items_route_def
        example_request_def started_env_def)
  from dispatch_response_count[OF d] ev show ?thesis
    by (simp add: responses_def plain_app_def)
qed

end
